theory Spec2Isabelle
  imports Main "HOL-Library.Word"
begin

section \<open>The arpc client runtime and the pubsub server\<close>

text \<open>
  A shallow embedding of \<^verbatim>\<open>src/pubsub/server.go\<close>: the pubsub server handlers
  (\<^verbatim>\<open>onAuthenticate\<close>, \<^verbatim>\<open>onSubscribe\<close>, \<^verbatim>\<open>onUnsubscribe\<close>, \<^verbatim>\<open>onPublish\<close>,
  \<^verbatim>\<open>onPublishToOne\<close>) and the client runtime of package arpc (\<^verbatim>\<open>Call\<close>,
  \<^verbatim>\<open>CallAsync\<close>, \<^verbatim>\<open>Notify\<close>, \<^verbatim>\<open>PushMsg\<close>, \<^verbatim>\<open>sendLoop\<close>, \<^verbatim>\<open>newReqMessage\<close>
  and the correlation tables).

  Every operation is a function from the state before the call to the state after it.
  One call is modelled as one atomic run of its body; where the body waits on a
  channel or a timer, what the other goroutines and the clock do during the wait is an
  explicit argument of the function, so that a theorem quantifies over every outcome
  of the wait.
\<close>

subsection \<open>Bytes, durations, errors\<close>

type_synonym byte = "8 word"

text \<open>\<^verbatim>\<open>time.Duration\<close> is a signed 64-bit count of nanoseconds. No arithmetic is done on
  durations here, only comparisons with zero and with the two constants.\<close>

type_synonym duration = int

definition TimeZero :: duration where
  "TimeZero = 0"


datatype error =
    ErrClientStopped
  | ErrClientReconnecting
  | ErrClientTimeout
  | ErrClientQueueIsFull
  | ErrInvalidTimeoutArg duration  \<comment> \<open>\<^verbatim>\<open>fmt.Errorf("invalid timeout arg: %v", timeout)\<close>\<close>
  | ErrText "byte list"            \<comment> \<open>\<^verbatim>\<open>errors.New(string(msg[HeadLen:]))\<close>\<close>
  | ErrCodec                       \<comment> \<open>an error of \<^verbatim>\<open>Codec.Unmarshal\<close> or of \<^verbatim>\<open>ctx.Bind\<close>\<close>
  | ErrInvalidPassword
  | ErrInvalidTopicEmpty
  | PanicIndexOutOfRange           \<comment> \<open>a run-time panic of an index beyond a slice\<close>

subsection \<open>The wire header\<close>

text \<open>Modelled from the spec: the header constants are declared in a file that is not
  among the sources; the offsets are those of the frame table of the specification (body
  length at 0, sequence at 4, command at 12, async flag at 13, method-name length at 14,
  body from the end of the header).\<close>

definition headerIndexBodyLenBegin :: nat where "headerIndexBodyLenBegin = 0"
definition headerIndexBodyLenEnd :: nat where "headerIndexBodyLenEnd = 4"
definition headerIndexSeqBegin :: nat where "headerIndexSeqBegin = 4"
definition headerIndexSeqEnd :: nat where "headerIndexSeqEnd = 12"
definition headerIndexCmd :: nat where "headerIndexCmd = 12"
definition headerIndexAsync :: nat where "headerIndexAsync = 13"
definition headerIndexMethodLen :: nat where "headerIndexMethodLen = 14"
definition HeadLen :: nat where "HeadLen = 15"

text \<open>Modelled from the spec: the command bytes are declared elsewhere; only that the
  three commands differ is used.\<close>

definition RPCCmdReq :: byte where "RPCCmdReq = 1"
definition RPCCmdRsp :: byte where "RPCCmdRsp = 2"
definition RPCCmdErr :: byte where "RPCCmdErr = 3"

text \<open>\<^verbatim>\<open>binary.LittleEndian\<close>: the bytes of a number, least significant first, and the
  number of a byte sequence.\<close>

definition le_enc :: "nat \<Rightarrow> nat \<Rightarrow> byte list" where
  "le_enc n v = map (\<lambda>i. of_nat (v div 256 ^ i mod 256)) [0..<n]"

fun le_dec :: "byte list \<Rightarrow> nat" where
  "le_dec [] = 0"
| "le_dec (b # bs) = unat b + 256 * le_dec bs"

text \<open>\<^verbatim>\<open>copy(dst[off:], src)\<close> on a slice: the bytes of \<open>src\<close> that fit replace those
  of \<open>dst\<close> from \<open>off\<close> on; the length of \<open>dst\<close> does not change.\<close>

definition copy_at :: "nat \<Rightarrow> byte list \<Rightarrow> byte list \<Rightarrow> byte list" where
  "copy_at off src dst =
     take off dst @ take (length dst - off) src @ drop (off + length src) dst"

definition PutUint32 :: "nat \<Rightarrow> 32 word \<Rightarrow> byte list \<Rightarrow> byte list" where
  "PutUint32 off v dst = copy_at off (le_enc 4 (unat v)) dst"

definition PutUint64 :: "nat \<Rightarrow> 64 word \<Rightarrow> byte list \<Rightarrow> byte list" where
  "PutUint64 off v dst = copy_at off (le_enc 8 (unat v)) dst"

definition Uint64 :: "byte list \<Rightarrow> 64 word" where
  "Uint64 bs = of_nat (le_dec (take 8 bs))"

definition str_bytes :: "string \<Rightarrow> byte list" where
  "str_bytes s = map (\<lambda>c. of_nat (of_char c)) s"

subsection \<open>Messages\<close>

text \<open>A \<^verbatim>\<open>Message\<close> is a byte slice over a pooled buffer. The model keeps the identity
  of the buffer beside the bytes, since the reference count belongs to the buffer.\<close>

record message =
  buf :: nat
  bytes :: "byte list"

text \<open>Modelled from the spec: the accessors of \<^verbatim>\<open>Message\<close> are not among the sources;
  they read the header fields at the offsets above, and the payload handed to the
  transport is the whole frame.\<close>

definition Seq :: "message \<Rightarrow> 64 word" where
  "Seq m = Uint64 (drop headerIndexSeqBegin (bytes m))"

definition Cmd :: "message \<Rightarrow> byte option" where
  "Cmd m = (if headerIndexCmd < length (bytes m) then Some (bytes m ! headerIndexCmd) else None)"

definition Payload :: "message \<Rightarrow> byte list" where
  "Payload m = bytes m"

subsection \<open>The client and the package-level state\<close>

record rpcSession =
  sess_seq :: "64 word"
  sess_done :: "message option"  \<comment> \<open>the delivery channel, of capacity one\<close>

text \<open>The function run by \<^verbatim>\<open>time.AfterFunc\<close> in \<^verbatim>\<open>CallAsync\<close> is always
  \<^verbatim>\<open>c.deleteAsyncHandler(seq)\<close>; a timer is its duration and that sequence number.\<close>

record timer =
  after :: duration
  expires :: "64 word"

record asyncHandler =
  ah_h :: nat  \<comment> \<open>the callback \<^verbatim>\<open>h\<close>, by identity\<close>
  ah_t :: "timer option"

text \<open>The fields of \<^verbatim>\<open>Client\<close> that the modelled functions read or write. The channel
  \<^verbatim>\<open>chSend\<close> is the list of the messages it buffers, oldest first, with its capacity
  \<^verbatim>\<open>Handler.SendQueueSize()\<close> beside it.\<close>

record client =
  running :: bool
  reconnecting :: bool
  chSend :: "message list"
  sendQueueSize :: nat
  seq :: "64 word"
  sessionMap :: "64 word \<rightharpoonup> rpcSession"
  asyncHandlerMap :: "64 word \<rightharpoonup> asyncHandler"

text \<open>The state outside the client that its functions change: the pools of buffers,
  sessions and handlers with the reference counts of the buffers, the timers armed by
  \<^verbatim>\<open>time.AfterFunc\<close>, and the calls of \<^verbatim>\<open>Handler.Send\<close> made so far, each with the
  payload and whether the write succeeded.\<close>

record world = client +
  memPool :: "nat list"
  memNext :: nat
  refCount :: "nat \<Rightarrow> int"
  sessionPool :: "rpcSession list"
  asyncHandlerPool :: "asyncHandler list"
  timers :: "timer list"
  wire :: "(byte list \<times> bool) list"

subsection \<open>Buffers and reference counts\<close>

text \<open>Modelled from the spec: \<^verbatim>\<open>memGet\<close>, \<^verbatim>\<open>memPut\<close>, \<^verbatim>\<open>Retain\<close> and \<^verbatim>\<open>Release\<close> are
  not among the sources. A message is created with reference count 1 on a buffer taken
  from the pool when it has one; \<^verbatim>\<open>Retain\<close> increments the count; \<^verbatim>\<open>Release\<close>
  decrements it and returns the buffer to the pool at zero; \<^verbatim>\<open>memPut\<close> returns the
  buffer to the pool.\<close>

definition memGet :: "nat \<Rightarrow> world \<Rightarrow> message \<times> world" where
  "memGet n w =
     (case memPool w of
        [] \<Rightarrow> (\<lparr>buf = memNext w, bytes = replicate n 0\<rparr>,
               w\<lparr>memNext := Suc (memNext w), refCount := (refCount w)(memNext w := 1)\<rparr>)
      | b # bs \<Rightarrow> (\<lparr>buf = b, bytes = replicate n 0\<rparr>,
               w\<lparr>memPool := bs, refCount := (refCount w)(b := 1)\<rparr>))"

definition memPut :: "message \<Rightarrow> world \<Rightarrow> world" where
  "memPut m w = w\<lparr>memPool := buf m # memPool w\<rparr>"

definition Retain :: "message \<Rightarrow> world \<Rightarrow> world" where
  "Retain m w = w\<lparr>refCount := (refCount w)(buf m := refCount w (buf m) + 1)\<rparr>"

definition Release :: "message \<Rightarrow> world \<Rightarrow> world" where
  "Release m w =
     (let n = refCount w (buf m) - 1
      in w\<lparr>refCount := (refCount w)(buf m := n),
           memPool := (if n = 0 then buf m # memPool w else memPool w)\<rparr>)"

subsection \<open>Building a request\<close>

text \<open>\<^verbatim>\<open>newReqMessage\<close>; the argument \<open>data\<close> is \<^verbatim>\<open>valueToBytes(c.Codec, req)\<close>, the
  request as the codec encodes it. \<^verbatim>\<open>atomic.AddUint64(&c.seq, 1)\<close> adds one modulo
  \<open>2 ^ 64\<close> and gives the new value.\<close>

definition newReqMessage :: "string \<Rightarrow> byte list \<Rightarrow> byte \<Rightarrow> world \<Rightarrow> message \<times> world" where
  "newReqMessage method data async w =
     (let bodyLen = length method + length data;
          (msg, w1) = memGet (HeadLen + bodyLen) w;
          sq = seq w1 + 1;
          w2 = w1\<lparr>seq := sq\<rparr>;
          b1 = PutUint32 headerIndexBodyLenBegin (of_nat bodyLen) (bytes msg);
          b2 = PutUint64 headerIndexSeqBegin sq b1;
          b3 = b2[headerIndexCmd := RPCCmdReq];
          b4 = b3[headerIndexAsync := async];
          b5 = b4[headerIndexMethodLen := of_nat (length method)];
          b6 = copy_at HeadLen (str_bytes method) b5;
          b7 = copy_at (HeadLen + length method) data b6
      in (msg\<lparr>bytes := b7\<rparr>, w2))"

text \<open>The requests built by successive invocations, in order.\<close>

fun newReqMessages :: "(string \<times> byte list \<times> byte) list \<Rightarrow> world \<Rightarrow> message list \<times> world" where
  "newReqMessages [] w = ([], w)"
| "newReqMessages ((method, data, async) # rs) w =
     (let (m, w1) = newReqMessage method data async w;
          (ms, w2) = newReqMessages rs w1
      in (m # ms, w2))"

subsection \<open>The correlation tables\<close>

text \<open>Modelled from the spec: \<^verbatim>\<open>sessionGet\<close>, \<^verbatim>\<open>sessionPut\<close>, \<^verbatim>\<open>asyncHandlerGet\<close> and
  \<^verbatim>\<open>asyncHandlerPut\<close> are not among the sources. A session or handler is taken from
  its pool when the pool has one and made otherwise; putting it back adds it to the
  pool.\<close>

definition sessionGet :: "64 word \<Rightarrow> world \<Rightarrow> rpcSession \<times> world" where
  "sessionGet sq w =
     (case sessionPool w of
        [] \<Rightarrow> (\<lparr>sess_seq = sq, sess_done = None\<rparr>, w)
      | s # ps \<Rightarrow> (s\<lparr>sess_seq := sq, sess_done := None\<rparr>, w\<lparr>sessionPool := ps\<rparr>))"

definition sessionPut :: "rpcSession \<Rightarrow> world \<Rightarrow> world" where
  "sessionPut sess w = w\<lparr>sessionPool := sess # sessionPool w\<rparr>"

definition asyncHandlerGet :: "nat \<Rightarrow> world \<Rightarrow> asyncHandler \<times> world" where
  "asyncHandlerGet cb w =
     (case asyncHandlerPool w of
        [] \<Rightarrow> (\<lparr>ah_h = cb, ah_t = None\<rparr>, w)
      | a # as \<Rightarrow> (a\<lparr>ah_h := cb, ah_t := None\<rparr>, w\<lparr>asyncHandlerPool := as\<rparr>))"

definition asyncHandlerPut :: "asyncHandler \<Rightarrow> world \<Rightarrow> world" where
  "asyncHandlerPut handler w = w\<lparr>asyncHandlerPool := handler # asyncHandlerPool w\<rparr>"

definition addSession :: "64 word \<Rightarrow> rpcSession \<Rightarrow> world \<Rightarrow> world" where
  "addSession sq session w = w\<lparr>sessionMap := (sessionMap w)(sq \<mapsto> session)\<rparr>"

definition getSession :: "64 word \<Rightarrow> world \<Rightarrow> rpcSession option" where
  "getSession sq w = sessionMap w sq"

definition deleteSession :: "64 word \<Rightarrow> world \<Rightarrow> world" where
  "deleteSession sq w = w\<lparr>sessionMap := (sessionMap w)(sq := None)\<rparr>"

definition addAsyncHandler :: "64 word \<Rightarrow> asyncHandler \<Rightarrow> world \<Rightarrow> world" where
  "addAsyncHandler sq handler w = w\<lparr>asyncHandlerMap := (asyncHandlerMap w)(sq \<mapsto> handler)\<rparr>"

definition deleteAsyncHandler :: "64 word \<Rightarrow> world \<Rightarrow> world" where
  "deleteAsyncHandler sq w =
     (case asyncHandlerMap w sq of
        Some handler \<Rightarrow> asyncHandlerPut handler (w\<lparr>asyncHandlerMap := (asyncHandlerMap w)(sq := None)\<rparr>)
      | None \<Rightarrow> w)"

definition getAndDeleteAsyncHandler :: "64 word \<Rightarrow> world \<Rightarrow> asyncHandler option \<times> world" where
  "getAndDeleteAsyncHandler sq w =
     (case asyncHandlerMap w sq of
        Some handler \<Rightarrow>
          (Some handler, asyncHandlerPut handler (w\<lparr>asyncHandlerMap := (asyncHandlerMap w)(sq := None)\<rparr>))
      | None \<Rightarrow> (None, w))"

text \<open>The function of an armed timer runs when the timer expires.\<close>

definition timer_expires :: "timer \<Rightarrow> world \<Rightarrow> world" where
  "timer_expires tm w = deleteAsyncHandler (expires tm) (w\<lparr>timers := remove1 tm (timers w)\<rparr>)"

subsection \<open>The send loop\<close>

text \<open>The body of the loop of \<^verbatim>\<open>sendLoop\<close> for a message taken from the queue. The
  result of \<^verbatim>\<open>Handler.Send\<close> is not looked at by the code; \<open>ok\<close> says whether the write
  succeeded.\<close>

definition sendLoop_body :: "bool \<Rightarrow> message \<Rightarrow> world \<Rightarrow> world" where
  "sendLoop_body ok msg w =
     Release msg (if \<not> reconnecting w then w\<lparr>wire := wire w @ [(Payload msg, ok)]\<rparr> else w)"

text \<open>One iteration: the loop takes the oldest message of the queue; on an empty queue it
  waits (\<open>None\<close>).\<close>

definition sendLoop_step :: "bool \<Rightarrow> world \<Rightarrow> world option" where
  "sendLoop_step ok w =
     (case chSend w of
        [] \<Rightarrow> None
      | msg # rest \<Rightarrow> Some (sendLoop_body ok msg (w\<lparr>chSend := rest\<rparr>)))"

text \<open>The loop on a closed queue: it consumes what the queue holds and returns. The
  list gives the outcome of the write of each iteration.\<close>

fun sendLoop :: "bool list \<Rightarrow> world \<Rightarrow> world" where
  "sendLoop [] w = w"
| "sendLoop (ok # oks) w =
     (case sendLoop_step ok w of None \<Rightarrow> w | Some w1 \<Rightarrow> sendLoop oks w1)"

subsection \<open>Waiting for the queue\<close>

text \<open>What happens while a caller waits in a \<^verbatim>\<open>select\<close> or in a blocking send:
  \<open>timer_first\<close> says that the \<^verbatim>\<open>select\<close> takes the case of the timer;
  \<open>drained\<close> says whether the send loop takes a message off a queue that has no room
  while the caller waits, and with which outcome of its write.\<close>

record sched =
  timer_first :: bool
  drained :: "bool option"

definition has_room :: "world \<Rightarrow> bool" where
  "has_room w = (length (chSend w) < sendQueueSize w)"

definition chan_put :: "message \<Rightarrow> world \<Rightarrow> world" where
  "chan_put msg w = w\<lparr>chSend := chSend w @ [msg]\<rparr>"

text \<open>\<^verbatim>\<open>select { case c.chSend <- msg: default: }\<close>: the send happens when the queue has
  room. (On a queue of capacity zero a send needs the send loop waiting in its receive;
  the model takes the loop as busy at that moment.)\<close>

definition send_or_default :: "message \<Rightarrow> world \<Rightarrow> world option" where
  "send_or_default msg w = (if has_room w then Some (chan_put msg w) else None)"

text \<open>\<^verbatim>\<open>c.chSend <- msg\<close>: the send happens when the queue has room, or once the send
  loop has run an iteration, which takes the oldest message and lets the new one in;
  otherwise the caller waits for ever (\<open>None\<close>).\<close>

definition send_blocking :: "sched \<Rightarrow> message \<Rightarrow> world \<Rightarrow> world option" where
  "send_blocking e msg w =
     (if has_room w then Some (chan_put msg w)
      else case drained e of
             None \<Rightarrow> None
           | Some ok \<Rightarrow> sendLoop_step ok (chan_put msg w))"

text \<open>\<^verbatim>\<open>select { case c.chSend <- msg: case <-timer.C: }\<close>: \<open>None\<close> is the case of the
  timer. On a queue that the send loop does not drain the timer fires in the end.\<close>

definition send_or_timer :: "sched \<Rightarrow> message \<Rightarrow> world \<Rightarrow> world option" where
  "send_or_timer e msg w = (if timer_first e then None else send_blocking e msg w)"

subsection \<open>Call\<close>

text \<open>The dynamic type of the \<^verbatim>\<open>rsp\<close> argument of \<^verbatim>\<open>Call\<close>, and what the call stores
  through it.\<close>

datatype rsp = RspString | RspBytes | RspError | RspOther

datatype bound =
    Unbound
  | BoundString "byte list"
  | BoundBytes "byte list"
  | BoundError "byte list"
  | BoundDecoded "byte list"

text \<open>What the rest of the program does during a \<^verbatim>\<open>Call\<close>: the wait for the queue, the
  response that the receive path delivers to the session before the timer fires, if
  any, and the result of \<^verbatim>\<open>Codec.Unmarshal\<close> on a body.\<close>

record call_env =
  enqueue :: sched
  response :: "message option"
  unmarshal :: "byte list \<Rightarrow> error option"

text \<open>The switch on the command of the response, after the two \<^verbatim>\<open>select\<close>s.\<close>

definition bind_response :: "call_env \<Rightarrow> rsp \<Rightarrow> message \<Rightarrow> error option \<times> bound" where
  "bind_response e r msg =
     (case Cmd msg of
        None \<Rightarrow> (Some PanicIndexOutOfRange, Unbound)
      | Some cmd \<Rightarrow>
          if cmd = RPCCmdRsp then
            (if length (bytes msg) < HeadLen then (Some PanicIndexOutOfRange, Unbound)
             else let body = drop HeadLen (bytes msg)
                  in case r of
                       RspString \<Rightarrow> (None, BoundString body)
                     | RspBytes \<Rightarrow> (None, BoundBytes body)
                     | RspError \<Rightarrow> (None, BoundError body)
                     | RspOther \<Rightarrow>
                         (case unmarshal e body of
                            None \<Rightarrow> (None, BoundDecoded body)
                          | Some err \<Rightarrow> (Some err, Unbound)))
          else if cmd = RPCCmdErr then
            (if length (bytes msg) < HeadLen then (Some PanicIndexOutOfRange, Unbound)
             else (Some (ErrText (drop HeadLen (bytes msg))), Unbound))
          else (None, Unbound))"

text \<open>The first deferred function of \<^verbatim>\<open>Call\<close>: it stops the timer, deletes the entry of
  the session table and puts the session back.\<close>

definition Call_deferred :: "64 word \<Rightarrow> rpcSession \<Rightarrow> world \<Rightarrow> world" where
  "Call_deferred sq sess w = sessionPut sess (w\<lparr>sessionMap := (sessionMap w)(sq := None)\<rparr>)"

definition Call :: "call_env \<Rightarrow> string \<Rightarrow> byte list \<Rightarrow> rsp \<Rightarrow> duration \<Rightarrow> world
    \<Rightarrow> (error option \<times> bound) \<times> world" where
  "Call e method req r timeout w =
     (if \<not> running w then ((Some ErrClientStopped, Unbound), w)
      else if reconnecting w then ((Some ErrClientReconnecting, Unbound), w)
      else if timeout \<le> 0 then ((Some (ErrInvalidTimeoutArg timeout), Unbound), w)
      else
        let (msg, w1) = newReqMessage method req 0 w;
            sq = Seq msg;
            (sess, w2) = sessionGet sq w1;
            w3 = addSession sq sess w2
        in case send_or_timer (enqueue e) msg w3 of
             None \<Rightarrow> ((Some ErrClientTimeout, Unbound), Call_deferred sq sess w3)
           | Some w4 \<Rightarrow>
               (case response e of
                  None \<Rightarrow> ((Some ErrClientTimeout, Unbound), Call_deferred sq sess w4)
                | Some rmsg \<Rightarrow>
                    (bind_response e r rmsg, Call_deferred sq sess (memPut rmsg w4))))"

subsection \<open>CallAsync, Notify, PushMsg\<close>

text \<open>\<^verbatim>\<open>handler.t = time.AfterFunc(timeout, func() { c.deleteAsyncHandler(seq) })\<close>: the
  timer is armed and stored in the handler registered for \<open>sq\<close>.\<close>

definition arm_expiry :: "duration \<Rightarrow> 64 word \<Rightarrow> world \<Rightarrow> world" where
  "arm_expiry timeout sq w =
     (let tm = \<lparr>after = timeout, expires = sq\<rparr>
      in w\<lparr>asyncHandlerMap :=
             (case asyncHandlerMap w sq of
                None \<Rightarrow> asyncHandlerMap w
              | Some handler \<Rightarrow> (asyncHandlerMap w)(sq \<mapsto> handler\<lparr>ah_t := Some tm\<rparr>)),
           timers := timers w @ [tm]\<rparr>)"

text \<open>\<^verbatim>\<open>CallAsync\<close>; the callback \<open>h\<close> is \<open>None\<close> for \<^verbatim>\<open>nil\<close>.\<close>

definition CallAsync :: "sched \<Rightarrow> string \<Rightarrow> byte list \<Rightarrow> nat option \<Rightarrow> duration \<Rightarrow> world
    \<Rightarrow> error option \<times> world" where
  "CallAsync e method req h timeout w =
     (let (msg, w1) = newReqMessage method req 1 w;
          sq = Seq msg
      in if \<not> running w1 then (Some ErrClientStopped, w1)
         else if reconnecting w1 then (Some ErrClientReconnecting, w1)
         else
           let w2 = (case h of
                       None \<Rightarrow> w1
                     | Some cb \<Rightarrow> (let (handler, w') = asyncHandlerGet cb w1
                                  in addAsyncHandler sq handler w'))
           in if timeout = TimeZero then
                (case send_or_default msg w2 of
                   Some w3 \<Rightarrow> (None, Retain msg w3)
                 | None \<Rightarrow> (Some ErrClientQueueIsFull, deleteAsyncHandler sq (Release msg w2)))
              else
                (case send_or_timer e msg w2 of
                   Some w3 \<Rightarrow>
                     (None, (case h of
                               None \<Rightarrow> Retain msg w3
                             | Some cb \<Rightarrow> arm_expiry timeout sq (Retain msg w3)))
                 | None \<Rightarrow> (Some ErrClientTimeout, deleteAsyncHandler sq (Release msg w2))))"

definition Notify :: "sched \<Rightarrow> string \<Rightarrow> byte list \<Rightarrow> duration \<Rightarrow> world \<Rightarrow> error option \<times> world" where
  "Notify e method data timeout w = CallAsync e method data None timeout w"


subsection \<open>Making and starting a client\<close>

text \<open>\<^verbatim>\<open>NewClient\<close> (and \<^verbatim>\<open>newClientWithConn\<close>): the zero value of the fields with two empty
  tables, here with the package-level state of a program that has not called anything
  yet. \<^verbatim>\<open>Run\<close> starts the client with a queue of the capacity \<open>n\<close> that
  \<^verbatim>\<open>Handler.SendQueueSize()\<close> gives.\<close>

definition NewClient :: world where
  "NewClient =
     \<lparr>running = False, reconnecting = False, chSend = [], sendQueueSize = 0, seq = 0,
      sessionMap = Map.empty, asyncHandlerMap = Map.empty,
      memPool = [], memNext = 0, refCount = (\<lambda>b. 0),
      sessionPool = [], asyncHandlerPool = [], timers = [], wire = []\<rparr>"

definition Run :: "nat \<Rightarrow> world \<Rightarrow> world" where
  "Run n w = (if \<not> running w then w\<lparr>running := True, chSend := [], sendQueueSize := n\<rparr> else w)"

text \<open>The sequence numbers that have a correlation entry pending: a session or an async
  handler.\<close>

definition pending :: "world \<Rightarrow> 64 word set" where
  "pending w = dom (sessionMap w) \<union> dom (asyncHandlerMap w)"

text \<open>The state of \<^verbatim>\<open>CallAsync\<close> once the handler, if any, is registered.\<close>

definition registered :: "nat option \<Rightarrow> 64 word \<Rightarrow> world \<Rightarrow> world" where
  "registered h sq w1 =
     (case h of
        None \<Rightarrow> w1
      | Some cb \<Rightarrow> (let (handler, w') = asyncHandlerGet cb w1 in addAsyncHandler sq handler w'))"


subsection \<open>The pubsub server\<close>

text \<open>Modelled from the spec: \<^verbatim>\<open>Topic\<close>, \<^verbatim>\<open>TopicAgent\<close> and its methods are not among the
  sources. A topic is a name with a payload. A topic agent is the set of the
  connections subscribed to one topic name: \<^verbatim>\<open>Add\<close> and \<^verbatim>\<open>Delete\<close> insert and remove a
  connection; \<^verbatim>\<open>Publish\<close> pushes the envelope to every member but the originator and
  \<^verbatim>\<open>PublishToOne\<close> to one of them, and neither changes the registry. Connections
  (\<^verbatim>\<open>*arpc.Client\<close>) are named by numbers.\<close>

record Topic =
  Name :: string
  Data :: "byte list"

record TopicAgent =
  ta_Name :: string
  ta_clients :: "nat set"

text \<open>Modelled from the spec: \<^verbatim>\<open>newTopicAgent\<close> is not among the sources; a new agent has
  the name of its topic and no member.\<close>

definition newTopicAgent :: "string \<Rightarrow> TopicAgent" where
  "newTopicAgent topic = \<lparr>ta_Name = topic, ta_clients = {}\<rparr>"

text \<open>An agent is created under its name in \<^verbatim>\<open>s.topics\<close> and never removed, so a
  \<^verbatim>\<open>*TopicAgent\<close> is modelled by that name.\<close>

record clientTopics =
  topicAgents :: "string \<rightharpoonup> string"

text \<open>The server: the password, the topic registry, and the \<^verbatim>\<open>UserData\<close> of every
  connection (\<open>None\<close> for \<^verbatim>\<open>nil\<close>). The field \<^verbatim>\<open>clients\<close> of the source is made empty by
  \<^verbatim>\<open>NewServer\<close> and never used again.\<close>

record server =
  Password :: string
  topics :: "string \<rightharpoonup> TopicAgent"
  UserData :: "nat \<Rightarrow> clientTopics option"

record Context =
  ctx_Client :: nat
  ctx_Body :: "byte list"

text \<open>What a handler does besides changing the server: the reply written to the
  connection (\<^verbatim>\<open>ctx.Write(nil)\<close> or \<^verbatim>\<open>ctx.Error(err)\<close>), a line of the log, and the
  fan-out of a publication to a set of connections.\<close>

datatype event =
    Reply_nil
  | Reply_error error
  | Log_error string
  | Log_info string
  | Pushed "nat set" Topic
  | Pushed_to_one_of "nat set" Topic

text \<open>The decoders, which are not among the sources, are arguments: \<^verbatim>\<open>ctx.Bind\<close> on a
  string and \<^verbatim>\<open>Topic.fromBytes\<close>.\<close>

record decoders =
  Bind :: "byte list \<Rightarrow> error + string"
  fromBytes :: "byte list \<Rightarrow> error + Topic"

definition invalid :: "server \<Rightarrow> Context \<Rightarrow> bool" where
  "invalid s ctx = (UserData s (ctx_Client ctx) = None)"

definition getTopic :: "string \<Rightarrow> server \<Rightarrow> string option" where
  "getTopic topic s = (case topics s topic of None \<Rightarrow> None | Some tp \<Rightarrow> Some topic)"

definition getOrMakeTopic :: "string \<Rightarrow> server \<Rightarrow> string \<times> server" where
  "getOrMakeTopic topic s =
     (case topics s topic of
        Some tp \<Rightarrow> (topic, s)
      | None \<Rightarrow>
          (case topics s topic of
             Some tp \<Rightarrow> (topic, s)
           | None \<Rightarrow> (topic, s\<lparr>topics := (topics s)(topic \<mapsto> newTopicAgent topic)\<rparr>)))"

text \<open>Modelled from the spec: the methods \<^verbatim>\<open>Add\<close>, \<^verbatim>\<open>Delete\<close>, \<^verbatim>\<open>Publish\<close> and
  \<^verbatim>\<open>PublishToOne\<close> of \<^verbatim>\<open>TopicAgent\<close>, which are not among the sources, on the agent
  that the name points to. The fan-out of a publication is recorded as the set of the
  connections it goes to: the members without the originator.\<close>

definition ta_Add :: "string \<Rightarrow> nat \<Rightarrow> server \<Rightarrow> server" where
  "ta_Add tp c s =
     (case topics s tp of
        None \<Rightarrow> s
      | Some a \<Rightarrow> s\<lparr>topics := (topics s)(tp \<mapsto> a\<lparr>ta_clients := insert c (ta_clients a)\<rparr>)\<rparr>)"

definition ta_Delete :: "string \<Rightarrow> nat \<Rightarrow> server \<Rightarrow> server" where
  "ta_Delete tp c s =
     (case topics s tp of
        None \<Rightarrow> s
      | Some a \<Rightarrow> s\<lparr>topics := (topics s)(tp \<mapsto> a\<lparr>ta_clients := ta_clients a - {c}\<rparr>)\<rparr>)"

definition ta_Publish :: "string \<Rightarrow> nat option \<Rightarrow> Topic \<Rightarrow> server \<Rightarrow> event list" where
  "ta_Publish tp origin topic s =
     (case topics s tp of
        None \<Rightarrow> []
      | Some a \<Rightarrow> [Pushed (ta_clients a - set_option origin) topic])"

definition ta_PublishToOne :: "string \<Rightarrow> nat option \<Rightarrow> Topic \<Rightarrow> server \<Rightarrow> event list" where
  "ta_PublishToOne tp origin topic s =
     (case topics s tp of
        None \<Rightarrow> []
      | Some a \<Rightarrow> [Pushed_to_one_of (ta_clients a - set_option origin) topic])"

definition addClient :: "nat \<Rightarrow> server \<Rightarrow> server" where
  "addClient c s = s\<lparr>UserData := (UserData s)(c := Some \<lparr>topicAgents = Map.empty\<rparr>)\<rparr>"

definition onAuthenticate :: "decoders \<Rightarrow> Context \<Rightarrow> server \<Rightarrow> event list \<times> server" where
  "onAuthenticate d ctx s =
     (case Bind d (ctx_Body ctx) of
        Inl err \<Rightarrow> ([Reply_error err, Log_error ''[Authenticate] failed''], s)
      | Inr passwd \<Rightarrow>
          if passwd = Password s then
            ([Reply_nil, Log_info ''[Authenticate] success''], addClient (ctx_Client ctx) s)
          else ([Reply_error ErrInvalidPassword, Log_error ''[Authenticate] failed''], s))"

text \<open>In the handlers below the branch of a \<^verbatim>\<open>nil\<close> \<^verbatim>\<open>UserData\<close> after the check of
  \<open>invalid\<close> is the panic of the type assertion, which \<^verbatim>\<open>HandlePanic\<close> recovers; the
  check makes it unreachable.\<close>

definition onSubscribe :: "decoders \<Rightarrow> Context \<Rightarrow> server \<Rightarrow> event list \<times> server" where
  "onSubscribe d ctx s =
     (if invalid s ctx then ([Log_error ''[Subscribe] invalid ctx''], s)
      else case fromBytes d (ctx_Body ctx) of
        Inl err \<Rightarrow> ([Reply_error err, Log_error ''[Subscribe] failed''], s)
      | Inr topic \<Rightarrow>
          let topicName = Name topic
          in if topicName \<noteq> [] then
               (case UserData s (ctx_Client ctx) of
                  None \<Rightarrow> ([Log_error ''panic''], s)
                | Some cts \<Rightarrow>
                    (case topicAgents cts topicName of
                       None \<Rightarrow>
                         let (tp, s1) = getOrMakeTopic topicName s;
                             cts1 = cts\<lparr>topicAgents := (topicAgents cts)(topicName \<mapsto> tp)\<rparr>;
                             s2 = s1\<lparr>UserData := (UserData s1)(ctx_Client ctx := Some cts1)\<rparr>;
                             s3 = ta_Add tp (ctx_Client ctx) s2
                         in ([Reply_nil, Log_info ''[Subscribe] success''], s3)
                     | Some tp \<Rightarrow> ([Reply_nil], s)))
             else ([Reply_error ErrInvalidTopicEmpty, Log_error ''[Subscribe] failed''], s))"

definition onUnsubscribe :: "decoders \<Rightarrow> Context \<Rightarrow> server \<Rightarrow> event list \<times> server" where
  "onUnsubscribe d ctx s =
     (if invalid s ctx then ([Log_error ''[Unsubscribe] invalid ctx''], s)
      else case fromBytes d (ctx_Body ctx) of
        Inl err \<Rightarrow> ([Reply_error err, Log_error ''[Unsubscribe] failed''], s)
      | Inr topic \<Rightarrow>
          let topicName = Name topic
          in if topicName \<noteq> [] then
               (case UserData s (ctx_Client ctx) of
                  None \<Rightarrow> ([Log_error ''panic''], s)
                | Some cts \<Rightarrow>
                    (case topicAgents cts topicName of
                       Some ta \<Rightarrow>
                         let cts1 = cts\<lparr>topicAgents := (topicAgents cts)(topicName := None)\<rparr>;
                             s1 = s\<lparr>UserData := (UserData s)(ctx_Client ctx := Some cts1)\<rparr>;
                             s2 = ta_Delete ta (ctx_Client ctx) s1
                         in ([Reply_nil, Log_info ''[Unsubscribe] success''], s2)
                     | None \<Rightarrow> ([Reply_nil], s)))
             else ([Reply_error ErrInvalidTopicEmpty, Log_error ''[Unsubscribe] failed''], s))"

definition onPublish :: "decoders \<Rightarrow> Context \<Rightarrow> server \<Rightarrow> event list \<times> server" where
  "onPublish d ctx s =
     (if invalid s ctx then ([Log_error ''[Publish] invalid ctx''], s)
      else case fromBytes d (ctx_Body ctx) of
        Inl err \<Rightarrow> ([Reply_error err, Log_error ''[Publish] failed''], s)
      | Inr topic \<Rightarrow>
          let topicName = Name topic
          in if topicName \<noteq> [] then
               (let (tp, s1) = getOrMakeTopic (Name topic) s
                in (Reply_nil # ta_Publish tp (Some (ctx_Client ctx)) topic s1, s1))
             else ([Reply_error ErrInvalidTopicEmpty, Log_error ''[Publish] failed''], s))"

definition onPublishToOne :: "decoders \<Rightarrow> Context \<Rightarrow> server \<Rightarrow> event list \<times> server" where
  "onPublishToOne d ctx s =
     (if invalid s ctx then ([Log_error ''[PublishToOne] invalid ctx''], s)
      else case fromBytes d (ctx_Body ctx) of
        Inl err \<Rightarrow> ([Reply_error err, Log_error ''[PublishToOne] failed''], s)
      | Inr topic \<Rightarrow>
          let topicName = Name topic
          in if topicName \<noteq> [] then
               (let (tp, s1) = getOrMakeTopic (Name topic) s
                in (Reply_nil # ta_PublishToOne tp (Some (ctx_Client ctx)) topic s1, s1))
             else ([Reply_error ErrInvalidTopicEmpty, Log_error ''[PublishToOne] failed''], s))"

text \<open>\<^verbatim>\<open>deleteClient\<close>, the handler of a disconnection: the connection leaves every agent
  of its topic set.\<close>

definition deleteClient :: "nat \<Rightarrow> server \<Rightarrow> server" where
  "deleteClient c s =
     (case UserData s c of
        None \<Rightarrow> s
      | Some cts \<Rightarrow>
          s\<lparr>topics := (\<lambda>n. case topics s n of
                              None \<Rightarrow> None
                            | Some a \<Rightarrow>
                                if n \<in> ran (topicAgents cts)
                                then Some (a\<lparr>ta_clients := ta_clients a - {c}\<rparr>)
                                else Some a)\<rparr>)"

text \<open>The routes registered by \<^verbatim>\<open>NewServer\<close>, and the server it makes.\<close>

datatype route = Authenticate | Subscribe | Unsubscribe | Publish | PublishToOne

definition handle :: "decoders \<Rightarrow> route \<Rightarrow> Context \<Rightarrow> server \<Rightarrow> event list \<times> server" where
  "handle d r ctx s =
     (case r of
        Authenticate \<Rightarrow> onAuthenticate d ctx s
      | Subscribe \<Rightarrow> onSubscribe d ctx s
      | Unsubscribe \<Rightarrow> onUnsubscribe d ctx s
      | Publish \<Rightarrow> onPublish d ctx s
      | PublishToOne \<Rightarrow> onPublishToOne d ctx s)"

definition NewServer :: "string \<Rightarrow> server" where
  "NewServer passwd = \<lparr>Password = passwd, topics = Map.empty, UserData = (\<lambda>c. None)\<rparr>"

text \<open>The server after a sequence of requests, each dispatched to the handler of its
  route.\<close>

fun serve :: "decoders \<Rightarrow> (route \<times> Context) list \<Rightarrow> server \<Rightarrow> server" where
  "serve d [] s = s"
| "serve d ((r, ctx) # reqs) s = serve d reqs (snd (handle d r ctx s))"

definition is_reply :: "event \<Rightarrow> bool" where
  "is_reply ev = (case ev of Reply_nil \<Rightarrow> True | Reply_error err \<Rightarrow> True | _ \<Rightarrow> False)"

section \<open>Properties\<close>

subsection \<open>Little-endian fields and the sequence number of a request\<close>

lemma length_le_enc: "length (le_enc n v) = n"
  by (simp add: le_enc_def)

lemma le_enc_Suc: "le_enc (Suc n) v = of_nat (v mod 256) # le_enc n (v div 256)"
proof -
  have "[0..<Suc n] = 0 # map Suc [0..<n]"
    by (simp add: upt_conv_Cons map_Suc_upt del: upt_Suc)
  then show ?thesis
    by (simp add: le_enc_def comp_def div_mult2_eq del: upt_Suc)
qed

lemma le_dec_le_enc: "le_dec (le_enc n v) = v mod 256 ^ n"
proof (induction n arbitrary: v)
  case 0
  then show ?case by (simp add: le_enc_def)
next
  case (Suc n)
  have "unat (of_nat (v mod 256) :: byte) = v mod 256"
    by (simp add: unat_of_nat)
  then show ?case
    by (simp add: le_enc_Suc Suc.IH mod_mult2_eq)
qed

lemma Uint64_PutUint64:
  assumes "off + 8 \<le> length dst"
  shows "Uint64 (drop off (PutUint64 off v dst)) = v"
proof -
  have "take 8 (drop off (PutUint64 off v dst)) = le_enc 8 (unat v)"
    using assms by (simp add: PutUint64_def copy_at_def length_le_enc)
  moreover have "unat v mod 256 ^ 8 = unat v"
    using unsigned_less [of v, where 'a = nat] by simp
  ultimately show ?thesis
    by (simp add: Uint64_def le_dec_le_enc)
qed

lemma length_copy_at: "length (copy_at off src dst) = length dst"
  by (auto simp: copy_at_def)

lemma take_copy_at: "n \<le> off \<Longrightarrow> take n (copy_at off src dst) = take n dst"
  by (cases "off \<le> length dst") (simp_all add: copy_at_def)

lemma length_memGet_bytes: "length (bytes (fst (memGet n w))) = n"
  by (simp add: memGet_def split: list.splits)

lemma memGet_frame:
  "running (snd (memGet n w)) = running w"
  "reconnecting (snd (memGet n w)) = reconnecting w"
  "chSend (snd (memGet n w)) = chSend w"
  "sendQueueSize (snd (memGet n w)) = sendQueueSize w"
  "seq (snd (memGet n w)) = seq w"
  "sessionMap (snd (memGet n w)) = sessionMap w"
  "asyncHandlerMap (snd (memGet n w)) = asyncHandlerMap w"
  "sessionPool (snd (memGet n w)) = sessionPool w"
  "asyncHandlerPool (snd (memGet n w)) = asyncHandlerPool w"
  "timers (snd (memGet n w)) = timers w"
  "wire (snd (memGet n w)) = wire w"
  by (simp_all add: memGet_def split: list.splits)

lemma take12_newReqMessage:
  "take 12 (bytes (fst (newReqMessage method data async w))) =
   take 12 (PutUint64 4 (seq w + 1) (PutUint32 0 (of_nat (length method + length data))
      (bytes (fst (memGet (HeadLen + (length method + length data)) w)))))"
  by (simp add: newReqMessage_def Let_def split_beta take_copy_at HeadLen_def memGet_frame
        headerIndexSeqBegin_def headerIndexCmd_def headerIndexAsync_def
        headerIndexMethodLen_def headerIndexBodyLenBegin_def)

text \<open>The sequence number read back from a request is the incremented counter.\<close>

lemma Seq_newReqMessage: "Seq (fst (newReqMessage method data async w)) = seq w + 1"
proof -
  let ?b = "PutUint32 0 (of_nat (length method + length data))
      (bytes (fst (memGet (HeadLen + (length method + length data)) w)))"
  have len: "4 + 8 \<le> length ?b"
    by (simp add: PutUint32_def length_copy_at length_memGet_bytes HeadLen_def)
  have "Seq (fst (newReqMessage method data async w)) =
        Uint64 (drop 4 (take 12 (bytes (fst (newReqMessage method data async w)))))"
    by (simp add: Seq_def headerIndexSeqBegin_def Uint64_def take_drop)
  also have "\<dots> = Uint64 (drop 4 (PutUint64 4 (seq w + 1) ?b))"
    by (simp add: take12_newReqMessage Uint64_def take_drop)
  also have "\<dots> = seq w + 1"
    using len by (rule Uint64_PutUint64)
  finally show ?thesis .
qed

text \<open>Building a request changes the counter and the buffer pool, nothing else.\<close>

lemma newReqMessage_frame:
  "running (snd (newReqMessage method data async w)) = running w"
  "reconnecting (snd (newReqMessage method data async w)) = reconnecting w"
  "chSend (snd (newReqMessage method data async w)) = chSend w"
  "sendQueueSize (snd (newReqMessage method data async w)) = sendQueueSize w"
  "seq (snd (newReqMessage method data async w)) = seq w + 1"
  "sessionMap (snd (newReqMessage method data async w)) = sessionMap w"
  "asyncHandlerMap (snd (newReqMessage method data async w)) = asyncHandlerMap w"
  "sessionPool (snd (newReqMessage method data async w)) = sessionPool w"
  "asyncHandlerPool (snd (newReqMessage method data async w)) = asyncHandlerPool w"
  "timers (snd (newReqMessage method data async w)) = timers w"
  "wire (snd (newReqMessage method data async w)) = wire w"
  by (simp_all add: newReqMessage_def Let_def split_beta memGet_frame)

lemma Seqs_newReqMessages:
  "map Seq (fst (newReqMessages rs w)) = map (\<lambda>i. seq w + 1 + of_nat i) [0..<length rs]"
proof (induction rs arbitrary: w)
  case Nil
  then show ?case by simp
next
  case (Cons r rs)
  obtain mth dat asy where r: "r = (mth, dat, asy)"
    by (cases r) auto
  have up: "[0..<Suc (length rs)] = 0 # map Suc [0..<length rs]"
    by (simp add: upt_conv_Cons map_Suc_upt del: upt_Suc)
  show ?case
    using Seq_newReqMessage [of mth dat asy w]
    by (simp add: r split_beta Let_def Cons.IH newReqMessage_frame up comp_def
          add.assoc del: upt_Suc)
qed

lemma unat_seq_plus:
  "unat s + 1 + i < 2 ^ 64 \<Longrightarrow> unat (s + 1 + of_nat i :: 64 word) = unat s + 1 + i"
  by (simp add: unat_word_ariths unat_of_nat)

text \<open>
  C4. The sequence numbers written into the requests built by successive invocations
  of \<^verbatim>\<open>newReqMessage\<close> are strictly increasing, and none of them is the number of a
  correlation entry that is pending, as long as the 64-bit counter does not wrap: the
  counter before the first invocation plus the number of invocations stays below
  \<open>2 ^ 64\<close>. The pending entries are those of numbers issued before (at most the
  counter).
\<close>

theorem seq_strictly_increasing:
  assumes nowrap: "unat (seq w) + length rs < 2 ^ 64"
      and old: "\<forall>k \<in> pending w. k \<le> seq w"
  shows "sorted_wrt (<) (map Seq (fst (newReqMessages rs w))) \<and>
         (\<forall>m \<in> set (fst (newReqMessages rs w)). seq w < Seq m \<and> Seq m \<notin> pending w)"
proof -
  let ?f = "\<lambda>i. seq w + 1 + of_nat i"
  have u: "unat (?f i) = unat (seq w) + 1 + i" if "i < length rs" for i
    using that nowrap by (intro unat_seq_plus) simp
  have "sorted_wrt (<) (map ?f [0..<length rs])"
    by (simp add: sorted_wrt_iff_nth_less word_less_nat_alt u)
  then have inc: "sorted_wrt (<) (map Seq (fst (newReqMessages rs w)))"
    by (simp only: Seqs_newReqMessages)
  have fresh: "seq w < Seq m \<and> Seq m \<notin> pending w" if "m \<in> set (fst (newReqMessages rs w))" for m
  proof -
    from that have "Seq m \<in> set (map Seq (fst (newReqMessages rs w)))"
      by simp
    then obtain i where i: "i < length rs" and m: "Seq m = ?f i"
      by (auto simp: Seqs_newReqMessages)
    have gt: "seq w < Seq m"
      using u [OF i] by (simp add: m word_less_nat_alt)
    moreover have "Seq m \<notin> pending w"
      using old gt by (auto simp: not_le [symmetric])
    ultimately show ?thesis by simp
  qed
  from inc fresh show ?thesis by blast
qed

text \<open>A client whose counter is 5, with the async handler of request 3 pending, builds
  the requests 6 and 7.\<close>

theorem seq_strictly_increasing_witness:
  "pending ((Run 2 NewClient)\<lparr>seq := 5, asyncHandlerMap := [3 \<mapsto> \<lparr>ah_h = 0, ah_t = None\<rparr>]\<rparr>) = {3} \<and>
   sorted_wrt (<) (map Seq (fst (newReqMessages [(''echo'', [], 0), (''echo'', [], 1)]
     ((Run 2 NewClient)\<lparr>seq := 5, asyncHandlerMap := [3 \<mapsto> \<lparr>ah_h = 0, ah_t = None\<rparr>]\<rparr>))))"
  using seq_strictly_increasing
    [of "(Run 2 NewClient)\<lparr>seq := 5, asyncHandlerMap := [3 \<mapsto> \<lparr>ah_h = 0, ah_t = None\<rparr>]\<rparr>"
        "[(''echo'', [], 0), (''echo'', [], 1)]"]
  by (simp add: pending_def Run_def NewClient_def)

text \<open>At the counter \<open>2 ^ 64 - 2\<close> the next two requests carry \<open>2 ^ 64 - 1\<close> and 0.\<close>

theorem seq_wraps_counterexample:
  "map Seq (fst (newReqMessages [(''echo'', [], 0), (''echo'', [], 1)]
     ((Run 2 NewClient)\<lparr>seq := 18446744073709551614\<rparr>))) = [18446744073709551615, 0] \<and>
   \<not> sorted_wrt (<) (map Seq (fst (newReqMessages [(''echo'', [], 0), (''echo'', [], 1)]
     ((Run 2 NewClient)\<lparr>seq := 18446744073709551614\<rparr>))))"
  by (simp add: Seqs_newReqMessages Run_def NewClient_def del: newReqMessages.simps)

subsection \<open>Waiting for the queue leaves the tables alone\<close>

lemma send_blocking_frame:
  assumes "send_blocking e msg w = Some w1"
  shows "sessionMap w1 = sessionMap w" and "sessionPool w1 = sessionPool w"
    and "asyncHandlerMap w1 = asyncHandlerMap w" and "asyncHandlerPool w1 = asyncHandlerPool w"
    and "timers w1 = timers w" and "seq w1 = seq w"
    and "running w1 = running w" and "reconnecting w1 = reconnecting w"
    and "sendQueueSize w1 = sendQueueSize w"
  using assms
  by (auto simp: send_blocking_def chan_put_def sendLoop_step_def sendLoop_body_def Release_def
        Let_def split: if_splits option.splits list.splits)

lemma send_or_timer_frame:
  assumes "send_or_timer e msg w = Some w1"
  shows "sessionMap w1 = sessionMap w" and "sessionPool w1 = sessionPool w"
    and "asyncHandlerMap w1 = asyncHandlerMap w" and "asyncHandlerPool w1 = asyncHandlerPool w"
    and "timers w1 = timers w" and "seq w1 = seq w"
    and "running w1 = running w" and "reconnecting w1 = reconnecting w"
    and "sendQueueSize w1 = sendQueueSize w"
  using assms send_blocking_frame [of e msg w w1]
  by (simp_all add: send_or_timer_def split: if_splits)

lemma sessionGet_frame:
  "sess_seq (fst (sessionGet sq w)) = sq"
  "sessionPool (snd (sessionGet sq w)) = tl (sessionPool w)"
  "sessionMap (snd (sessionGet sq w)) = sessionMap w"
  by (simp_all add: sessionGet_def split: list.splits)

subsection \<open>Call\<close>

text \<open>
  C10. On a running client that is not reconnecting, \<^verbatim>\<open>Call\<close> with a timeout that is
  zero or negative returns at once with the error made from the timeout argument, which
  is not \<^verbatim>\<open>ErrClientTimeout\<close>, and leaves the whole state as it was: no message is built
  (the counter and the buffer pool do not move), no session is registered, nothing is
  enqueued.
\<close>

theorem Call_rejects_nonpositive_timeout:
  assumes "running w" and "\<not> reconnecting w" and "timeout \<le> 0"
  shows "Call e mth req r timeout w = ((Some (ErrInvalidTimeoutArg timeout), Unbound), w) \<and>
         ErrInvalidTimeoutArg timeout \<noteq> ErrClientTimeout"
  using assms by (simp add: Call_def)

theorem Call_rejects_nonpositive_timeout_witness:
  "running (Run 2 NewClient) \<and> \<not> reconnecting (Run 2 NewClient) \<and> (0 :: duration) \<le> 0 \<and>
   Call \<lparr>enqueue = \<lparr>timer_first = False, drained = None\<rparr>, response = None,
         unmarshal = (\<lambda>b. None)\<rparr> ''echo'' [104, 105] RspString 0 (Run 2 NewClient) =
     ((Some (ErrInvalidTimeoutArg 0), Unbound), Run 2 NewClient)"
  using Call_rejects_nonpositive_timeout
    [of "Run 2 NewClient" 0 "\<lparr>enqueue = \<lparr>timer_first = False, drained = None\<rparr>, response = None,
         unmarshal = (\<lambda>b. None)\<rparr>" "''echo''" "[104, 105]" RspString]
  by (simp add: Run_def NewClient_def)

text \<open>
  C3. On a running client that is not reconnecting, \<^verbatim>\<open>Call\<close> with a positive timeout
  registers its session under the sequence number of its request, the counter plus one.
  Whatever happens during the call (the enqueue times out, no response is delivered in
  time, a response or an error command is delivered), when the call returns the session
  table has no entry for that number and the session is back at the head of the session
  pool.
\<close>

theorem Call_releases_session:
  assumes "running w" and "\<not> reconnecting w" and "0 < timeout"
  shows "sessionMap (snd (Call e mth req r timeout w)) (seq w + 1) = None \<and>
         (\<exists>sess. sess_seq sess = seq w + 1 \<and>
            sessionPool (snd (Call e mth req r timeout w)) = sess # tl (sessionPool w))"
proof -
  obtain msg w1 where nr: "newReqMessage mth req 0 w = (msg, w1)"
    by (cases "newReqMessage mth req 0 w")
  have sq: "Seq msg = seq w + 1"
    using Seq_newReqMessage [of mth req 0 w] by (simp add: nr)
  have w1: "sessionMap w1 = sessionMap w" "sessionPool w1 = sessionPool w"
    using newReqMessage_frame [of mth req 0 w] by (simp_all add: nr)
  obtain sess w2 where sg: "sessionGet (seq w + 1) w1 = (sess, w2)"
    by (cases "sessionGet (seq w + 1) w1")
  have sess: "sess_seq sess = seq w + 1" and w2: "sessionPool w2 = tl (sessionPool w)"
    using sessionGet_frame [of "seq w + 1" w1] by (simp_all add: sg w1)
  let ?w3 = "addSession (seq w + 1) sess w2"
  have w3: "sessionPool ?w3 = tl (sessionPool w)"
    by (simp add: addSession_def w2)
  have d: "sessionMap (Call_deferred (seq w + 1) sess v) (seq w + 1) = None \<and>
           sessionPool (Call_deferred (seq w + 1) sess v) = sess # tl (sessionPool w)"
    if "sessionPool v = tl (sessionPool w)" for v
    using that by (simp add: Call_deferred_def sessionPut_def)
  have "sessionMap (snd (Call e mth req r timeout w)) (seq w + 1) = None \<and>
        sessionPool (snd (Call e mth req r timeout w)) = sess # tl (sessionPool w)"
  proof (cases "send_or_timer (enqueue e) msg ?w3")
    case None
    then show ?thesis
      using assms d [OF w3] by (simp add: Call_def Let_def nr sq sg)
  next
    case (Some w4)
    have w4: "sessionPool w4 = tl (sessionPool w)"
      using send_or_timer_frame(2) [OF Some] w3 by simp
    show ?thesis
    proof (cases "response e")
      case None
      then show ?thesis
        using assms Some d [OF w4] by (simp add: Call_def Let_def nr sq sg)
    next
      case (Some rmsg)
      have "sessionPool (memPut rmsg w4) = tl (sessionPool w)"
        by (simp add: memPut_def w4)
      from d [OF this] show ?thesis
        using assms Some \<open>send_or_timer (enqueue e) msg ?w3 = Some w4\<close>
        by (simp add: Call_def Let_def nr sq sg)
    qed
  qed
  with sess show ?thesis by blast
qed

text \<open>A call of one second on a fresh client whose peer answers with the response frame
  of body \<open>hi\<close>.\<close>

theorem Call_releases_session_witness:
  "running (Run 2 NewClient) \<and> \<not> reconnecting (Run 2 NewClient) \<and> (0 :: duration) < 1000000000 \<and>
   sessionMap (snd (Call \<lparr>enqueue = \<lparr>timer_first = False, drained = None\<rparr>,
       response = Some \<lparr>buf = 9, bytes = replicate 12 0 @ [2, 0, 0, 104, 105]\<rparr>,
       unmarshal = (\<lambda>b. None)\<rparr> ''echo'' [104, 105] RspString 1000000000 (Run 2 NewClient))) 1 = None \<and>
   (\<exists>sess. sess_seq sess = 1 \<and>
      sessionPool (snd (Call \<lparr>enqueue = \<lparr>timer_first = False, drained = None\<rparr>,
       response = Some \<lparr>buf = 9, bytes = replicate 12 0 @ [2, 0, 0, 104, 105]\<rparr>,
       unmarshal = (\<lambda>b. None)\<rparr> ''echo'' [104, 105] RspString 1000000000 (Run 2 NewClient))) = [sess])"
  using Call_releases_session
    [of "Run 2 NewClient" 1000000000 "\<lparr>enqueue = \<lparr>timer_first = False, drained = None\<rparr>,
       response = Some \<lparr>buf = 9, bytes = replicate 12 0 @ [2, 0, 0, 104, 105]\<rparr>,
       unmarshal = (\<lambda>b. None)\<rparr>" "''echo''" "[104, 105]" RspString]
  by (simp add: Run_def NewClient_def)

text \<open>The four ways out of a \<^verbatim>\<open>Call\<close> that has registered its session.\<close>

lemma Call_result:
  assumes "running w" and "\<not> reconnecting w" and "0 < timeout"
  shows "fst (Call e mth req r timeout w) =
     (if timer_first (enqueue e) \<or> (\<not> has_room w \<and> drained (enqueue e) = None)
      then (Some ErrClientTimeout, Unbound)
      else case response e of
             None \<Rightarrow> (Some ErrClientTimeout, Unbound)
           | Some rmsg \<Rightarrow> bind_response e r rmsg)"
proof -
  obtain msg w1 where nr: "newReqMessage mth req 0 w = (msg, w1)"
    by (cases "newReqMessage mth req 0 w")
  have w1: "chSend w1 = chSend w" "sendQueueSize w1 = sendQueueSize w"
    using newReqMessage_frame [of mth req 0 w] by (simp_all add: nr)
  obtain sess w2 where sg: "sessionGet (Seq msg) w1 = (sess, w2)"
    by (cases "sessionGet (Seq msg) w1")
  have w2: "chSend w2 = chSend w" "sendQueueSize w2 = sendQueueSize w"
    using sg w1 by (auto simp: sessionGet_def split: list.splits)
  have room: "has_room (addSession (Seq msg) sess w2) = has_room w"
    by (simp add: has_room_def addSession_def w2)
  have "chSend (addSession (Seq msg) sess w2) @ [msg] \<noteq> []"
    by simp
  then have step: "sendLoop_step ok (chan_put msg (addSession (Seq msg) sess w2)) \<noteq> None" for ok
    by (simp add: sendLoop_step_def chan_put_def split: list.splits)
  show ?thesis
  proof (cases "drained (enqueue e)")
    case None
    then show ?thesis
      using assms room
      by (auto simp: Call_def Let_def nr sg send_or_timer_def send_blocking_def
            split: option.splits)
  next
    case (Some ok)
    obtain v where "sendLoop_step ok (chan_put msg (addSession (Seq msg) sess w2)) = Some v"
      using step [of ok] by blast
    then show ?thesis
      using assms room Some
      by (auto simp: Call_def Let_def nr sg send_or_timer_def send_blocking_def
            split: option.splits)
  qed
qed

lemma bind_response_Rsp:
  "bind_response e RspString \<lparr>buf = b, bytes = replicate 12 0 @ [2, 0, 0, 104, 105]\<rparr> =
     (None, BoundString [104, 105])"
  by (simp add: bind_response_def Cmd_def headerIndexCmd_def RPCCmdRsp_def HeadLen_def
        nth_append)

lemma bind_response_Err:
  "bind_response e r \<lparr>buf = b, bytes = replicate 12 0 @ [3, 0, 0, 110, 111]\<rparr> =
     (Some (ErrText [110, 111]), Unbound)"
  by (simp add: bind_response_def Cmd_def headerIndexCmd_def RPCCmdRsp_def RPCCmdErr_def
        HeadLen_def nth_append)

subsection \<open>CallAsync\<close>

lemma asyncHandlerGet_frame:
  "ah_h (fst (asyncHandlerGet cb w)) = cb"
  "ah_t (fst (asyncHandlerGet cb w)) = None"
  "asyncHandlerMap (snd (asyncHandlerGet cb w)) = asyncHandlerMap w"
  "chSend (snd (asyncHandlerGet cb w)) = chSend w"
  "sendQueueSize (snd (asyncHandlerGet cb w)) = sendQueueSize w"
  "timers (snd (asyncHandlerGet cb w)) = timers w"
  "running (snd (asyncHandlerGet cb w)) = running w"
  "reconnecting (snd (asyncHandlerGet cb w)) = reconnecting w"
  by (simp_all add: asyncHandlerGet_def split: list.splits)

lemma registered_frame:
  "chSend (registered h sq w) = chSend w"
  "sendQueueSize (registered h sq w) = sendQueueSize w"
  "timers (registered h sq w) = timers w"
  "asyncHandlerMap (registered h sq w) =
     (case h of None \<Rightarrow> asyncHandlerMap w
      | Some cb \<Rightarrow> (asyncHandlerMap w)(sq \<mapsto> fst (asyncHandlerGet cb w)))"
  by (simp_all add: registered_def split_beta addAsyncHandler_def asyncHandlerGet_frame
        split: option.splits)

lemma CallAsync_unfold:
  assumes "running w" and "\<not> reconnecting w"
  shows "CallAsync e mth req h timeout w =
     (let (msg, w1) = newReqMessage mth req 1 w;
          w2 = registered h (seq w + 1) w1
      in if timeout = 0 then
           (case send_or_default msg w2 of
              Some w3 \<Rightarrow> (None, Retain msg w3)
            | None \<Rightarrow> (Some ErrClientQueueIsFull, deleteAsyncHandler (seq w + 1) (Release msg w2)))
         else
           (case send_or_timer e msg w2 of
              Some w3 \<Rightarrow>
                (None, (case h of
                          None \<Rightarrow> Retain msg w3
                        | Some cb \<Rightarrow> arm_expiry timeout (seq w + 1) (Retain msg w3)))
            | None \<Rightarrow> (Some ErrClientTimeout, deleteAsyncHandler (seq w + 1) (Release msg w2))))"
  using assms
  by (cases h)
    (simp_all add: CallAsync_def registered_def split_beta Let_def TimeZero_def
       Seq_newReqMessage newReqMessage_frame cong: option.case_cong)

lemma deleteAsyncHandler_map:
  "asyncHandlerMap (deleteAsyncHandler sq w) = (asyncHandlerMap w)(sq := None)"
  by (auto simp: deleteAsyncHandler_def asyncHandlerPut_def split: option.splits)



text \<open>On a client that is stopped or reconnecting \<^verbatim>\<open>CallAsync\<close> returns the error of that
  state, whatever the queue holds, and registers no handler; the request it has built
  has used a sequence number.\<close>

lemma CallAsync_stopped:
  assumes "\<not> running w"
  shows "fst (CallAsync e mth req h timeout w) = Some ErrClientStopped \<and>
         asyncHandlerMap (snd (CallAsync e mth req h timeout w)) = asyncHandlerMap w \<and>
         chSend (snd (CallAsync e mth req h timeout w)) = chSend w \<and>
         seq (snd (CallAsync e mth req h timeout w)) = seq w + 1"
  using assms by (simp add: CallAsync_def split_beta Let_def newReqMessage_frame)

lemma CallAsync_reconnecting:
  assumes "running w" and "reconnecting w"
  shows "fst (CallAsync e mth req h timeout w) = Some ErrClientReconnecting \<and>
         asyncHandlerMap (snd (CallAsync e mth req h timeout w)) = asyncHandlerMap w \<and>
         chSend (snd (CallAsync e mth req h timeout w)) = chSend w \<and>
         seq (snd (CallAsync e mth req h timeout w)) = seq w + 1"
  using assms by (simp add: CallAsync_def split_beta Let_def newReqMessage_frame)




lemma Retain_frame:
  "asyncHandlerMap (Retain msg w) = asyncHandlerMap w"
  "chSend (Retain msg w) = chSend w"
  "timers (Retain msg w) = timers w"
  by (simp_all add: Retain_def)

text \<open>With a timeout other than zero, a successful \<^verbatim>\<open>CallAsync\<close> with a callback arms a
  timer of the duration of the timeout; the handler is registered under the sequence
  number of the call and holds the timer, and when the timer expires the handler is
  deregistered.\<close>

lemma CallAsync_arms_expiry:
  assumes "running w" and "\<not> reconnecting w" and "timeout \<noteq> 0"
      and ok: "fst (CallAsync e mth req (Some cb) timeout w) = None"
  shows "timers (snd (CallAsync e mth req (Some cb) timeout w)) =
           timers w @ [\<lparr>after = timeout, expires = seq w + 1\<rparr>] \<and>
         (\<exists>handler. asyncHandlerMap (snd (CallAsync e mth req (Some cb) timeout w)) (seq w + 1) =
              Some handler \<and> ah_h handler = cb \<and>
              ah_t handler = Some \<lparr>after = timeout, expires = seq w + 1\<rparr>) \<and>
         asyncHandlerMap (timer_expires \<lparr>after = timeout, expires = seq w + 1\<rparr>
            (snd (CallAsync e mth req (Some cb) timeout w))) (seq w + 1) = None"
proof -
  obtain msg w1 where nr: "newReqMessage mth req 1 w = (msg, w1)"
    by (cases "newReqMessage mth req 1 w")
  have w1: "timers w1 = timers w"
    using newReqMessage_frame [of mth req 1 w] by (simp add: nr)
  let ?w2 = "registered (Some cb) (seq w + 1) w1"
  let ?tm = "\<lparr>after = timeout, expires = seq w + 1\<rparr>"
  obtain w3 where w3: "send_or_timer e msg ?w2 = Some w3"
    using ok assms(1-3) by (auto simp: CallAsync_unfold Let_def nr split: option.splits)
  have res: "snd (CallAsync e mth req (Some cb) timeout w) =
      arm_expiry timeout (seq w + 1) (Retain msg w3)"
    using assms(1-3) by (simp add: CallAsync_unfold Let_def nr w3)
  have m3: "asyncHandlerMap (Retain msg w3) (seq w + 1) = Some (fst (asyncHandlerGet cb w1))"
    and t3: "timers (Retain msg w3) = timers w"
    using send_or_timer_frame(3,5) [OF w3] by (simp_all add: Retain_frame registered_frame w1)
  have "timers (arm_expiry timeout (seq w + 1) (Retain msg w3)) = timers w @ [?tm]"
    by (simp add: arm_expiry_def Let_def t3)
  moreover have "asyncHandlerMap (arm_expiry timeout (seq w + 1) (Retain msg w3)) (seq w + 1) =
      Some ((fst (asyncHandlerGet cb w1))\<lparr>ah_t := Some ?tm\<rparr>)"
    by (simp add: arm_expiry_def Let_def m3)
  moreover have "asyncHandlerMap (timer_expires ?tm v) (seq w + 1) = None" for v
    by (simp add: timer_expires_def deleteAsyncHandler_map)
  ultimately show ?thesis
    by (simp add: res asyncHandlerGet_frame)
qed

text \<open>With a zero timeout and room in the queue, a \<^verbatim>\<open>CallAsync\<close> with a callback
  succeeds, registers the handler and arms no timer.\<close>

lemma CallAsync_zero_timeout_no_expiry:
  assumes "running w" and "\<not> reconnecting w" and "has_room w"
  shows "fst (CallAsync e mth req (Some cb) 0 w) = None \<and>
         timers (snd (CallAsync e mth req (Some cb) 0 w)) = timers w \<and>
         (\<exists>handler. asyncHandlerMap (snd (CallAsync e mth req (Some cb) 0 w)) (seq w + 1) =
              Some handler \<and> ah_h handler = cb \<and> ah_t handler = None)"
proof -
  obtain msg w1 where nr: "newReqMessage mth req 1 w = (msg, w1)"
    by (cases "newReqMessage mth req 1 w")
  have w1: "chSend w1 = chSend w" "sendQueueSize w1 = sendQueueSize w" "timers w1 = timers w"
    using newReqMessage_frame [of mth req 1 w] by (simp_all add: nr)
  let ?w2 = "registered (Some cb) (seq w + 1) w1"
  have room: "send_or_default msg ?w2 = Some (chan_put msg ?w2)"
    using assms(3) by (simp add: send_or_default_def has_room_def registered_frame w1)
  have res: "CallAsync e mth req (Some cb) 0 w = (None, Retain msg (chan_put msg ?w2))"
    using assms(1,2) by (simp add: CallAsync_unfold Let_def nr room)
  show ?thesis
    by (simp add: res Retain_frame chan_put_def registered_frame w1 asyncHandlerGet_frame)
qed

text \<open>
  C1. A \<^verbatim>\<open>CallAsync\<close> with a callback and a zero timeout on a fresh running client with
  room in its queue: the message is enqueued and the call succeeds, the handler stays
  registered under sequence number 1 with no timer in it, and no timer is armed. Nothing
  deregisters this handler when the response never comes.
\<close>

theorem CallAsync_zero_timeout_handler_without_timer:
  "fst (CallAsync \<lparr>timer_first = False, drained = None\<rparr> ''echo'' [] (Some 7) 0
      (Run 2 NewClient)) = None \<and>
   length (chSend (snd (CallAsync \<lparr>timer_first = False, drained = None\<rparr> ''echo'' [] (Some 7) 0
      (Run 2 NewClient)))) = 1 \<and>
   asyncHandlerMap (snd (CallAsync \<lparr>timer_first = False, drained = None\<rparr> ''echo'' [] (Some 7) 0
      (Run 2 NewClient))) 1 = Some \<lparr>ah_h = 7, ah_t = None\<rparr> \<and>
   timers (snd (CallAsync \<lparr>timer_first = False, drained = None\<rparr> ''echo'' [] (Some 7) 0
      (Run 2 NewClient))) = []"
proof -
  let ?w = "Run 2 NewClient"
  obtain msg w1 where nr: "newReqMessage ''echo'' [] 1 ?w = (msg, w1)"
    by (cases "newReqMessage ''echo'' [] 1 ?w")
  have "chSend w1 = chSend ?w" "sendQueueSize w1 = sendQueueSize ?w" "timers w1 = timers ?w"
      "asyncHandlerMap w1 = asyncHandlerMap ?w" "asyncHandlerPool w1 = asyncHandlerPool ?w"
    using newReqMessage_frame [of "''echo''" "[]" 1 ?w] by (simp_all add: nr)
  then have w1: "chSend w1 = []" "sendQueueSize w1 = 2" "timers w1 = []"
      "asyncHandlerMap w1 = Map.empty" "asyncHandlerPool w1 = []"
    by (simp_all add: Run_def NewClient_def)
  have r: "running ?w" "\<not> reconnecting ?w" and s: "seq ?w + 1 = 1"
    by (simp_all add: Run_def NewClient_def)
  let ?w2 = "registered (Some 7) 1 w1"
  have w2: "chSend ?w2 = []" "sendQueueSize ?w2 = 2" "timers ?w2 = []"
      "asyncHandlerMap ?w2 1 = Some \<lparr>ah_h = 7, ah_t = None\<rparr>"
    by (simp_all add: registered_def asyncHandlerGet_def addAsyncHandler_def w1)
  have room: "send_or_default msg ?w2 = Some (chan_put msg ?w2)"
    by (simp add: send_or_default_def has_room_def w2)
  have "CallAsync \<lparr>timer_first = False, drained = None\<rparr> ''echo'' [] (Some 7) 0 ?w =
      (None, Retain msg (chan_put msg ?w2))"
    using CallAsync_unfold [OF r, of "\<lparr>timer_first = False, drained = None\<rparr>" "''echo''" "[]" "Some 7" 0]
    by (simp add: nr room s Let_def)
  then show ?thesis
    by (simp add: Retain_frame chan_put_def w2)
qed

subsection \<open>The send loop\<close>

lemma sendLoop_step_Cons:
  assumes "chSend w = msg # rest"
  shows "sendLoop_step ok w =
     Some (Release msg (if reconnecting w then w\<lparr>chSend := rest\<rparr>
                        else w\<lparr>chSend := rest, wire := wire w @ [(Payload msg, ok)]\<rparr>))"
  using assms by (simp add: sendLoop_step_def sendLoop_body_def)

text \<open>
  C6. For a message that the send loop takes from the queue: the payload is handed to the
  transport exactly when the client is not reconnecting, and whether it was written or
  skipped, and whether the write succeeded or failed, the message is released once: the
  reference count of its buffer goes down by one, and the buffer returns to the pool
  when the count reaches zero.
\<close>

theorem sendLoop_step_releases_once:
  assumes "chSend w = msg # rest"
  shows "\<exists>w'. sendLoop_step ok w = Some w' \<and>
           w' = Release msg (if reconnecting w then w\<lparr>chSend := rest\<rparr>
                             else w\<lparr>chSend := rest, wire := wire w @ [(Payload msg, ok)]\<rparr>) \<and>
           chSend w' = rest \<and>
           wire w' = (if reconnecting w then wire w else wire w @ [(Payload msg, ok)]) \<and>
           refCount w' = (refCount w)(buf msg := refCount w (buf msg) - 1) \<and>
           memPool w' = (if refCount w (buf msg) = 1 then buf msg # memPool w else memPool w)"
  by (simp add: sendLoop_step_Cons [OF assms] Release_def Let_def)

text \<open>A reconnecting client whose queue holds one message with reference count 2, and
  a write that would fail.\<close>

theorem sendLoop_step_releases_once_witness:
  "chSend ((Run 2 NewClient)\<lparr>chSend := [\<lparr>buf = 4, bytes = replicate 15 0\<rparr>],
       reconnecting := True, refCount := (\<lambda>b. 2)\<rparr>) = [\<lparr>buf = 4, bytes = replicate 15 0\<rparr>] \<and>
   (\<exists>w'. sendLoop_step False ((Run 2 NewClient)\<lparr>chSend := [\<lparr>buf = 4, bytes = replicate 15 0\<rparr>],
       reconnecting := True, refCount := (\<lambda>b. 2)\<rparr>) = Some w' \<and>
      chSend w' = [] \<and> wire w' = [] \<and> refCount w' 4 = 1 \<and> memPool w' = [])"
  using sendLoop_step_releases_once
    [of "(Run 2 NewClient)\<lparr>chSend := [\<lparr>buf = 4, bytes = replicate 15 0\<rparr>],
       reconnecting := True, refCount := (\<lambda>b. 2)\<rparr>" "\<lparr>buf = 4, bytes = replicate 15 0\<rparr>" "[]" False]
  by (auto simp: Run_def NewClient_def)

text \<open>The loop on a closed queue releases every message it holds once.\<close>

lemma sendLoop_drains:
  "length oks = length (chSend w) \<Longrightarrow>
     chSend (sendLoop oks w) = [] \<and>
     refCount (sendLoop oks w) b = refCount w b - int (count_list (map buf (chSend w)) b)"
proof (induction oks arbitrary: w)
  case Nil
  then show ?case by simp
next
  case (Cons ok oks)
  then obtain msg rest where q: "chSend w = msg # rest"
    by (cases "chSend w") auto
  obtain w1 where w1: "sendLoop_step ok w = Some w1" "chSend w1 = rest"
      "refCount w1 = (refCount w)(buf msg := refCount w (buf msg) - 1)"
    by (simp add: sendLoop_step_Cons [OF q] Release_def Let_def)
  have "length oks = length (chSend w1)"
    using Cons.prems by (simp add: q w1)
  from Cons.IH [OF this] show ?case
    by (simp add: w1 q)
qed

subsection \<open>PushMsg\<close>












subsection \<open>Pending entries carry numbers that were issued\<close>

text \<open>The hypothesis of the theorem on sequence numbers, that every pending entry has a
  number at most the counter, holds for a new client and is kept by every operation as
  long as the counter does not wrap: an operation registers an entry only under the
  number it has just issued.\<close>

lemma pending_NewClient: "pending (Run n NewClient) = {}"
  by (simp add: pending_def Run_def NewClient_def)

lemma word_le_plus_one: "k \<le> s \<Longrightarrow> s \<noteq> - 1 \<Longrightarrow> k \<le> s + (1 :: 64 word)"
proof -
  assume le: "k \<le> s" and "s \<noteq> - 1"
  then have "1 + s \<noteq> 0"
    by (metis add.commute add_eq_0_iff)
  then have "unat (1 + s) = Suc (unat s)"
    by (rule unatSuc)
  then show ?thesis
    using le by (simp add: word_le_nat_alt add.commute)
qed

lemma Call_seq:
  "seq (snd (Call e mth req r timeout w)) =
     (if running w \<and> \<not> reconnecting w \<and> 0 < timeout then seq w + 1 else seq w)"
proof (cases "running w \<and> \<not> reconnecting w \<and> 0 < timeout")
  case False
  then show ?thesis
    by (auto simp: Call_def)
next
  case True
  obtain msg w1 where nr: "newReqMessage mth req 0 w = (msg, w1)"
    by (cases "newReqMessage mth req 0 w")
  have w1: "seq w1 = seq w + 1"
    using newReqMessage_frame [of mth req 0 w] by (simp add: nr)
  obtain sess w2 where sg: "sessionGet (Seq msg) w1 = (sess, w2)"
    by (cases "sessionGet (Seq msg) w1")
  have w2: "seq w2 = seq w + 1"
    using sg w1 by (auto simp: sessionGet_def split: list.splits)
  have d: "seq (Call_deferred sq sess v) = seq v" for sq v
    by (simp add: Call_deferred_def sessionPut_def)
  have w3: "seq (addSession (Seq msg) sess w2) = seq w + 1"
    by (simp add: addSession_def w2)
  show ?thesis
    using True w3 send_or_timer_frame(6) [of "enqueue e" msg "addSession (Seq msg) sess w2"]
    by (auto simp: Call_def Let_def nr sg d memPut_def split: option.splits)
qed

lemma Call_pending: "pending (snd (Call e mth req r timeout w)) \<subseteq> pending w"
proof (cases "running w \<and> \<not> reconnecting w \<and> 0 < timeout")
  case False
  then show ?thesis
    by (auto simp: Call_def)
next
  case True
  obtain msg w1 where nr: "newReqMessage mth req 0 w = (msg, w1)"
    by (cases "newReqMessage mth req 0 w")
  have w1: "sessionMap w1 = sessionMap w" "asyncHandlerMap w1 = asyncHandlerMap w"
    using newReqMessage_frame [of mth req 0 w] by (simp_all add: nr)
  obtain sess w2 where sg: "sessionGet (Seq msg) w1 = (sess, w2)"
    by (cases "sessionGet (Seq msg) w1")
  have w2: "sessionMap w2 = sessionMap w" "asyncHandlerMap w2 = asyncHandlerMap w"
    using sg w1 by (auto simp: sessionGet_def split: list.splits)
  let ?w3 = "addSession (Seq msg) sess w2"
  have d: "pending (Call_deferred (Seq msg) sess v) \<subseteq> pending w"
    if "sessionMap v = sessionMap ?w3" "asyncHandlerMap v = asyncHandlerMap ?w3" for v
    using that
    by (auto simp: pending_def Call_deferred_def sessionPut_def addSession_def w2
          split: if_splits)
  show ?thesis
  proof (cases "send_or_timer (enqueue e) msg ?w3")
    case None
    then show ?thesis
      using True d [of ?w3] by (simp add: Call_def Let_def nr sg)
  next
    case (Some w4)
    have f: "sessionMap w4 = sessionMap ?w3" "asyncHandlerMap w4 = asyncHandlerMap ?w3"
      using send_or_timer_frame(1,3) [OF Some] by simp_all
    have "pending (Call_deferred (Seq msg) sess w4) \<subseteq> pending w"
      by (rule d) (simp_all add: f)
    moreover have "pending (Call_deferred (Seq msg) sess (memPut rmsg w4)) \<subseteq> pending w" for rmsg
      by (rule d) (simp_all add: f memPut_def)
    ultimately show ?thesis
      using True Some by (auto simp: Call_def Let_def nr sg split: option.splits)
  qed
qed

lemma CallAsync_seq: "seq (snd (CallAsync e mth req h timeout w)) = seq w + 1"
proof (cases "running w \<and> \<not> reconnecting w")
  case False
  then show ?thesis
    using CallAsync_stopped [of w e mth req h timeout]
      CallAsync_reconnecting [of w e mth req h timeout] by auto
next
  case True
  obtain msg w1 where nr: "newReqMessage mth req 1 w = (msg, w1)"
    by (cases "newReqMessage mth req 1 w")
  have w1: "seq w1 = seq w + 1"
    using newReqMessage_frame [of mth req 1 w] by (simp add: nr)
  let ?w2 = "registered h (seq w + 1) w1"
  have w2: "seq ?w2 = seq w + 1"
    by (cases h)
      (simp_all add: registered_def split_beta addAsyncHandler_def asyncHandlerGet_def w1
         split: list.splits)
  have del: "seq (deleteAsyncHandler sq v) = seq v" for sq v
    by (simp add: deleteAsyncHandler_def asyncHandlerPut_def split: option.splits)
  have misc: "seq (Release msg v) = seq v" "seq (Retain msg v) = seq v"
      "seq (chan_put msg v) = seq v" "seq (arm_expiry timeout sq v) = seq v" for v sq
    by (simp_all add: Release_def Retain_def chan_put_def arm_expiry_def Let_def)
  show ?thesis
    using True w2 send_or_timer_frame(6) [of e msg ?w2]
    by (auto simp: CallAsync_unfold Let_def nr send_or_default_def del misc
          split: option.splits if_splits)
qed

lemma CallAsync_pending:
  "pending (snd (CallAsync e mth req h timeout w)) \<subseteq> insert (seq w + 1) (pending w)"
proof (cases "running w \<and> \<not> reconnecting w")
  case False
  then show ?thesis
    using CallAsync_stopped [of w e mth req h timeout]
      CallAsync_reconnecting [of w e mth req h timeout]
    by (auto simp: pending_def CallAsync_def split_beta Let_def newReqMessage_frame)
next
  case True
  obtain msg w1 where nr: "newReqMessage mth req 1 w = (msg, w1)"
    by (cases "newReqMessage mth req 1 w")
  have w1: "sessionMap w1 = sessionMap w" "asyncHandlerMap w1 = asyncHandlerMap w"
    using newReqMessage_frame [of mth req 1 w] by (simp_all add: nr)
  let ?w2 = "registered h (seq w + 1) w1"
  have w2: "pending ?w2 \<subseteq> insert (seq w + 1) (pending w)"
    by (cases h)
      (auto simp: pending_def registered_def split_beta addAsyncHandler_def asyncHandlerGet_def w1
         split: list.splits if_splits)
  have del: "pending (deleteAsyncHandler sq v) \<subseteq> pending v" for sq v
    by (auto simp: pending_def deleteAsyncHandler_def asyncHandlerPut_def
          split: option.splits if_splits)
  have misc: "pending (Release msg v) = pending v" "pending (Retain msg v) = pending v"
      "pending (chan_put msg v) = pending v" for v
    by (simp_all add: pending_def Release_def Retain_def chan_put_def Let_def)
  have arm: "pending (arm_expiry timeout sq v) = pending v" for sq v
    by (auto simp: pending_def arm_expiry_def Let_def split: option.splits if_splits)
  have sent: "pending w3 = pending ?w2" if "send_or_timer e msg ?w2 = Some w3" for w3
    using send_or_timer_frame(1,3) [OF that] by (simp add: pending_def)
  show ?thesis
  proof (cases "timeout = 0")
    case True
    then show ?thesis
      using \<open>running w \<and> \<not> reconnecting w\<close> w2 del [of "seq w + 1" "Release msg ?w2"]
      by (auto simp: CallAsync_unfold Let_def nr send_or_default_def misc
            split: option.splits if_splits)
  next
    case False
    show ?thesis
    proof (cases "send_or_timer e msg ?w2")
      case None
      then show ?thesis
        using False \<open>running w \<and> \<not> reconnecting w\<close> w2 del [of "seq w + 1" "Release msg ?w2"]
        by (auto simp: CallAsync_unfold Let_def nr misc)
    next
      case (Some w3)
      then show ?thesis
        using False \<open>running w \<and> \<not> reconnecting w\<close> w2 sent [OF Some]
        by (cases h) (auto simp: CallAsync_unfold Let_def nr misc arm)
    qed
  qed
qed

lemma Call_keeps_pending_issued:
  assumes "\<forall>k \<in> pending w. k \<le> seq w" and "seq w \<noteq> - 1"
  shows "\<forall>k \<in> pending (snd (Call e mth req r timeout w)). k \<le> seq (snd (Call e mth req r timeout w))"
  using assms Call_pending [of e mth req r timeout w] word_le_plus_one
  by (auto simp: Call_seq)

lemma CallAsync_keeps_pending_issued:
  assumes "\<forall>k \<in> pending w. k \<le> seq w" and "seq w \<noteq> - 1"
  shows "\<forall>k \<in> pending (snd (CallAsync e mth req h timeout w)).
           k \<le> seq (snd (CallAsync e mth req h timeout w))"
  using assms CallAsync_pending [of e mth req h timeout w] word_le_plus_one
  by (auto simp: CallAsync_seq)

subsection \<open>The pubsub server: authentication\<close>

text \<open>
  C7. For a connection without the per-connection topic state, which only a successful
  authentication attaches: a subscribe, unsubscribe, publish or publish-to-one request
  from it leaves the server, and so the topic registry and every topic set, as it was;
  and an authenticate request whose body decodes to a string other than the password is
  answered with \<^verbatim>\<open>ErrInvalidPassword\<close> and leaves the server as it was, the connection
  still without topic state.
\<close>

theorem unauthenticated_requests_not_honored:
  assumes "UserData s (ctx_Client ctx) = None"
  shows "snd (onSubscribe d ctx s) = s \<and> snd (onUnsubscribe d ctx s) = s \<and>
         snd (onPublish d ctx s) = s \<and> snd (onPublishToOne d ctx s) = s \<and>
         (\<forall>passwd. Bind d (ctx_Body ctx) = Inr passwd \<and> passwd \<noteq> Password s \<longrightarrow>
            onAuthenticate d ctx s =
              ([Reply_error ErrInvalidPassword, Log_error ''[Authenticate] failed''], s) \<and>
            UserData (snd (onAuthenticate d ctx s)) (ctx_Client ctx) = None)"
  using assms
  by (simp add: onSubscribe_def onUnsubscribe_def onPublish_def onPublishToOne_def
        onAuthenticate_def invalid_def)

text \<open>A new server with the password \<open>secret\<close> and connection 1, which sends \<open>guess\<close>.\<close>

theorem unauthenticated_requests_not_honored_witness:
  "UserData (NewServer ''secret'') 1 = None \<and>
   snd (onSubscribe \<lparr>Bind = (\<lambda>b. Inr ''guess''), fromBytes = (\<lambda>b. Inr \<lparr>Name = ''news'', Data = b\<rparr>)\<rparr>
      \<lparr>ctx_Client = 1, ctx_Body = []\<rparr> (NewServer ''secret'')) = NewServer ''secret'' \<and>
   snd (onPublish \<lparr>Bind = (\<lambda>b. Inr ''guess''), fromBytes = (\<lambda>b. Inr \<lparr>Name = ''news'', Data = b\<rparr>)\<rparr>
      \<lparr>ctx_Client = 1, ctx_Body = []\<rparr> (NewServer ''secret'')) = NewServer ''secret'' \<and>
   onAuthenticate \<lparr>Bind = (\<lambda>b. Inr ''guess''), fromBytes = (\<lambda>b. Inr \<lparr>Name = ''news'', Data = b\<rparr>)\<rparr>
      \<lparr>ctx_Client = 1, ctx_Body = []\<rparr> (NewServer ''secret'') =
     ([Reply_error ErrInvalidPassword, Log_error ''[Authenticate] failed''], NewServer ''secret'')"
  using unauthenticated_requests_not_honored
    [of "NewServer ''secret''" "\<lparr>ctx_Client = 1, ctx_Body = []\<rparr>"
        "\<lparr>Bind = (\<lambda>b. Inr ''guess''), fromBytes = (\<lambda>b. Inr \<lparr>Name = ''news'', Data = b\<rparr>)\<rparr>"]
  by (simp add: NewServer_def)

text \<open>The handlers touch the topic state of the connection of the request only, and never
  the password.\<close>

lemma getOrMakeTopic_frame:
  "UserData (snd (getOrMakeTopic n s)) = UserData s"
  "Password (snd (getOrMakeTopic n s)) = Password s"
  "fst (getOrMakeTopic n s) = n"
  by (simp_all add: getOrMakeTopic_def split: option.splits)

lemma ta_frame:
  "UserData (ta_Add tp c s) = UserData s" "Password (ta_Add tp c s) = Password s"
  "UserData (ta_Delete tp c s) = UserData s" "Password (ta_Delete tp c s) = Password s"
  by (simp_all add: ta_Add_def ta_Delete_def split: option.splits)

lemma handle_Password: "Password (snd (handle d r ctx s)) = Password s"
  by (cases r)
    (auto simp: handle_def onAuthenticate_def onSubscribe_def onUnsubscribe_def onPublish_def
       onPublishToOne_def addClient_def Let_def split_beta getOrMakeTopic_frame ta_frame
       split: sum.splits option.splits)

lemma handle_other_UserData:
  "ctx_Client ctx \<noteq> c \<Longrightarrow> UserData (snd (handle d r ctx s)) c = UserData s c"
  by (cases r)
    (auto simp: handle_def onAuthenticate_def onSubscribe_def onUnsubscribe_def onPublish_def
       onPublishToOne_def addClient_def Let_def split_beta getOrMakeTopic_frame ta_frame
       split: sum.splits option.splits)

lemma handle_unauthenticated:
  assumes "UserData s (ctx_Client ctx) = None"
      and "r = Authenticate \<longrightarrow> Bind d (ctx_Body ctx) \<noteq> Inr (Password s)"
  shows "snd (handle d r ctx s) = s"
  using assms
  by (cases r)
    (auto simp: handle_def onAuthenticate_def onSubscribe_def onUnsubscribe_def onPublish_def
       onPublishToOne_def invalid_def split: sum.splits)

text \<open>Over a whole run: while a connection has not sent the password, the server is in
  the state in which it would be had the connection sent nothing, and the connection
  has no topic state.\<close>

lemma never_authenticated_ignored:
  assumes "UserData s c = None"
      and "\<forall>(r, ctx) \<in> set reqs. ctx_Client ctx = c \<and> r = Authenticate \<longrightarrow>
             Bind d (ctx_Body ctx) \<noteq> Inr (Password s)"
  shows "serve d reqs s = serve d (filter (\<lambda>(r, ctx). ctx_Client ctx \<noteq> c) reqs) s \<and>
         UserData (serve d reqs s) c = None"
  using assms
proof (induction reqs arbitrary: s)
  case Nil
  then show ?case by simp
next
  case (Cons q reqs)
  obtain r ctx where q: "q = (r, ctx)"
    by (cases q)
  show ?case
  proof (cases "ctx_Client ctx = c")
    case True
    have "snd (handle d r ctx s) = s"
      using Cons.prems True by (intro handle_unauthenticated) (auto simp: q)
    then have e1: "serve d (q # reqs) s = serve d reqs s"
      by (simp add: q)
    have e2: "filter (\<lambda>(r, ctx). ctx_Client ctx \<noteq> c) (q # reqs) =
        filter (\<lambda>(r, ctx). ctx_Client ctx \<noteq> c) reqs"
      using True by (simp add: q)
    have "serve d reqs s = serve d (filter (\<lambda>(r, ctx). ctx_Client ctx \<noteq> c) reqs) s \<and>
        UserData (serve d reqs s) c = None"
      using Cons.prems by (intro Cons.IH) auto
    then show ?thesis
      unfolding e1 e2 .
  next
    case False
    let ?s1 = "snd (handle d r ctx s)"
    have e1: "serve d (q # reqs) s = serve d reqs ?s1"
      by (simp add: q)
    have e2: "serve d (filter (\<lambda>(r, ctx). ctx_Client ctx \<noteq> c) (q # reqs)) s =
        serve d (filter (\<lambda>(r, ctx). ctx_Client ctx \<noteq> c) reqs) ?s1"
      using False by (simp add: q)
    have "UserData ?s1 c = None"
      using Cons.prems(1) False by (simp add: handle_other_UserData)
    moreover have "\<forall>(r, ctx) \<in> set reqs. ctx_Client ctx = c \<and> r = Authenticate \<longrightarrow>
        Bind d (ctx_Body ctx) \<noteq> Inr (Password ?s1)"
      using Cons.prems(2) by (simp add: handle_Password)
    ultimately have "serve d reqs ?s1 =
        serve d (filter (\<lambda>(r, ctx). ctx_Client ctx \<noteq> c) reqs) ?s1 \<and>
        UserData (serve d reqs ?s1) c = None"
      by (rule Cons.IH)
    then show ?thesis
      unfolding e1 e2 .
  qed
qed

text \<open>
  C9. A subscribe, unsubscribe, publish or publish-to-one request from a connection
  without topic state gets no reply: the handler writes one error line to the log and
  returns, with neither \<^verbatim>\<open>ctx.Write\<close> nor \<^verbatim>\<open>ctx.Error\<close> called.
\<close>

theorem unauthenticated_requests_get_no_reply:
  assumes "UserData s (ctx_Client ctx) = None"
  shows "fst (onSubscribe d ctx s) = [Log_error ''[Subscribe] invalid ctx''] \<and>
         fst (onUnsubscribe d ctx s) = [Log_error ''[Unsubscribe] invalid ctx''] \<and>
         fst (onPublish d ctx s) = [Log_error ''[Publish] invalid ctx''] \<and>
         fst (onPublishToOne d ctx s) = [Log_error ''[PublishToOne] invalid ctx''] \<and>
         filter is_reply (fst (onSubscribe d ctx s)) = [] \<and>
         filter is_reply (fst (onUnsubscribe d ctx s)) = [] \<and>
         filter is_reply (fst (onPublish d ctx s)) = [] \<and>
         filter is_reply (fst (onPublishToOne d ctx s)) = []"
  using assms
  by (simp add: onSubscribe_def onUnsubscribe_def onPublish_def onPublishToOne_def
        invalid_def is_reply_def)

theorem unauthenticated_requests_get_no_reply_witness:
  "UserData (NewServer ''secret'') 1 = None \<and>
   fst (onSubscribe \<lparr>Bind = (\<lambda>b. Inr ''guess''), fromBytes = (\<lambda>b. Inr \<lparr>Name = ''news'', Data = b\<rparr>)\<rparr>
      \<lparr>ctx_Client = 1, ctx_Body = []\<rparr> (NewServer ''secret'')) = [Log_error ''[Subscribe] invalid ctx''] \<and>
   filter is_reply (fst (onPublish \<lparr>Bind = (\<lambda>b. Inr ''guess''), fromBytes = (\<lambda>b. Inr \<lparr>Name = ''news'', Data = b\<rparr>)\<rparr>
      \<lparr>ctx_Client = 1, ctx_Body = []\<rparr> (NewServer ''secret''))) = []"
  using unauthenticated_requests_get_no_reply
    [of "NewServer ''secret''" "\<lparr>ctx_Client = 1, ctx_Body = []\<rparr>"
        "\<lparr>Bind = (\<lambda>b. Inr ''guess''), fromBytes = (\<lambda>b. Inr \<lparr>Name = ''news'', Data = b\<rparr>)\<rparr>"]
  by (simp add: NewServer_def is_reply_def)

text \<open>An authenticated connection does get a reply to each of the four requests.\<close>

lemma authenticated_requests_get_a_reply:
  assumes "UserData s (ctx_Client ctx) \<noteq> None"
  shows "filter is_reply (fst (onSubscribe d ctx s)) \<noteq> [] \<and>
         filter is_reply (fst (onUnsubscribe d ctx s)) \<noteq> [] \<and>
         filter is_reply (fst (onPublish d ctx s)) \<noteq> [] \<and>
         filter is_reply (fst (onPublishToOne d ctx s)) \<noteq> []"
  using assms
  by (auto simp: onSubscribe_def onUnsubscribe_def onPublish_def onPublishToOne_def
        invalid_def is_reply_def Let_def split_beta split: sum.splits option.splits)

subsection \<open>The pubsub server: subscriptions\<close>

lemma onSubscribe_new:
  assumes "UserData s c = Some cts" and "fromBytes d body = Inr topic" and "Name topic \<noteq> []"
      and "topicAgents cts (Name topic) = None"
  shows "onSubscribe d \<lparr>ctx_Client = c, ctx_Body = body\<rparr> s =
     ([Reply_nil, Log_info ''[Subscribe] success''],
      ta_Add (Name topic) c
        ((snd (getOrMakeTopic (Name topic) s))
           \<lparr>UserData := (UserData s)
              (c := Some (cts\<lparr>topicAgents := (topicAgents cts)(Name topic \<mapsto> Name topic)\<rparr>))\<rparr>))"
  using assms
  by (simp add: onSubscribe_def invalid_def Let_def split_beta getOrMakeTopic_frame)

lemma onSubscribe_again:
  assumes "UserData s c = Some cts" and "fromBytes d body = Inr topic" and "Name topic \<noteq> []"
      and "topicAgents cts (Name topic) = Some tp"
  shows "onSubscribe d \<lparr>ctx_Client = c, ctx_Body = body\<rparr> s = ([Reply_nil], s)"
  using assms by (simp add: onSubscribe_def invalid_def)

lemma getOrMakeTopic_topics:
  "\<exists>a. topics (snd (getOrMakeTopic n s)) n = Some a"
  by (cases "topics s n") (simp_all add: getOrMakeTopic_def)

text \<open>
  C8. For an authenticated connection and a topic with a name that is not empty: after a
  subscribe request, a second subscribe request to the same topic succeeds with the
  plain success reply and leaves the server exactly as the first left it, so nothing is
  added twice. When the connection was not subscribed before, the first request has
  put the topic in the topic set of the connection and the connection in the member
  set of the agent of the topic; both are sets, with one entry for a member.
\<close>

theorem subscribe_idempotent:
  assumes "UserData s (ctx_Client ctx) = Some cts"
      and "fromBytes d (ctx_Body ctx) = Inr topic" and "Name topic \<noteq> []"
  shows "Reply_nil \<in> set (fst (onSubscribe d ctx s)) \<and>
         onSubscribe d ctx (snd (onSubscribe d ctx s)) = ([Reply_nil], snd (onSubscribe d ctx s)) \<and>
         (topicAgents cts (Name topic) = None \<longrightarrow>
            (\<exists>cts1 a. UserData (snd (onSubscribe d ctx s)) (ctx_Client ctx) = Some cts1 \<and>
               topicAgents cts1 (Name topic) = Some (Name topic) \<and>
               dom (topicAgents cts1) = insert (Name topic) (dom (topicAgents cts)) \<and>
               topics (snd (onSubscribe d ctx s)) (Name topic) = Some a \<and>
               ctx_Client ctx \<in> ta_clients a))"
proof -
  obtain c body where ctx: "ctx = \<lparr>ctx_Client = c, ctx_Body = body\<rparr>"
    by (cases ctx) auto
  have a: "UserData s c = Some cts" "fromBytes d body = Inr topic"
    using assms by (simp_all add: ctx)
  show ?thesis
  proof (cases "topicAgents cts (Name topic)")
    case (Some tp)
    have "onSubscribe d \<lparr>ctx_Client = c, ctx_Body = body\<rparr> s = ([Reply_nil], s)"
      using a assms(3) Some by (rule onSubscribe_again)
    then show ?thesis
      by (simp add: Some ctx)
  next
    case None
    let ?cts1 = "cts\<lparr>topicAgents := (topicAgents cts)(Name topic \<mapsto> Name topic)\<rparr>"
    let ?s2 = "(snd (getOrMakeTopic (Name topic) s))\<lparr>UserData := (UserData s)(c := Some ?cts1)\<rparr>"
    let ?s3 = "ta_Add (Name topic) c ?s2"
    have first: "onSubscribe d \<lparr>ctx_Client = c, ctx_Body = body\<rparr> s =
        ([Reply_nil, Log_info ''[Subscribe] success''], ?s3)"
      using a assms(3) None by (rule onSubscribe_new)
    have u3: "UserData ?s3 c = Some ?cts1"
      by (simp add: ta_frame)
    have "onSubscribe d \<lparr>ctx_Client = c, ctx_Body = body\<rparr> ?s3 = ([Reply_nil], ?s3)"
      using u3 a(2) assms(3) by (rule onSubscribe_again) simp
    moreover obtain a0 where "topics ?s2 (Name topic) = Some a0"
      using getOrMakeTopic_topics [of "Name topic" s] by auto
    then have "\<exists>a. topics ?s3 (Name topic) = Some a \<and> c \<in> ta_clients a"
      by (simp add: ta_Add_def)
    ultimately show ?thesis
      using u3 by (simp add: first ctx)
  qed
qed

text \<open>Connection 1, authenticated on a new server, subscribes to \<open>news\<close> twice.\<close>

theorem subscribe_idempotent_witness:
  "UserData (addClient 1 (NewServer ''secret'')) 1 = Some \<lparr>topicAgents = Map.empty\<rparr> \<and>
   onSubscribe \<lparr>Bind = (\<lambda>b. Inr ''secret''), fromBytes = (\<lambda>b. Inr \<lparr>Name = ''news'', Data = b\<rparr>)\<rparr>
       \<lparr>ctx_Client = 1, ctx_Body = []\<rparr>
     (snd (onSubscribe \<lparr>Bind = (\<lambda>b. Inr ''secret''), fromBytes = (\<lambda>b. Inr \<lparr>Name = ''news'', Data = b\<rparr>)\<rparr>
       \<lparr>ctx_Client = 1, ctx_Body = []\<rparr> (addClient 1 (NewServer ''secret'')))) =
     ([Reply_nil],
      snd (onSubscribe \<lparr>Bind = (\<lambda>b. Inr ''secret''), fromBytes = (\<lambda>b. Inr \<lparr>Name = ''news'', Data = b\<rparr>)\<rparr>
       \<lparr>ctx_Client = 1, ctx_Body = []\<rparr> (addClient 1 (NewServer ''secret'')))) \<and>
   (\<exists>a. topics (snd (onSubscribe \<lparr>Bind = (\<lambda>b. Inr ''secret''), fromBytes = (\<lambda>b. Inr \<lparr>Name = ''news'', Data = b\<rparr>)\<rparr>
       \<lparr>ctx_Client = 1, ctx_Body = []\<rparr> (addClient 1 (NewServer ''secret'')))) ''news'' = Some a \<and>
      1 \<in> ta_clients a)"
  using subscribe_idempotent
    [of "addClient 1 (NewServer ''secret'')" "\<lparr>ctx_Client = 1, ctx_Body = []\<rparr>"
        "\<lparr>topicAgents = Map.empty\<rparr>"
        "\<lparr>Bind = (\<lambda>b. Inr ''secret''), fromBytes = (\<lambda>b. Inr \<lparr>Name = ''news'', Data = b\<rparr>)\<rparr>"
        "\<lparr>Name = ''news'', Data = []\<rparr>"]
  by (auto simp: addClient_def NewServer_def)

text \<open>The state after the two requests, computed: one topic in the topic set of the
  connection, one agent, one member.\<close>

lemma subscribe_twice_example:
  "serve \<lparr>Bind = (\<lambda>b. Inr ''secret''), fromBytes = (\<lambda>b. Inr \<lparr>Name = ''news'', Data = b\<rparr>)\<rparr>
     [(Authenticate, \<lparr>ctx_Client = 1, ctx_Body = []\<rparr>),
      (Subscribe, \<lparr>ctx_Client = 1, ctx_Body = []\<rparr>),
      (Subscribe, \<lparr>ctx_Client = 1, ctx_Body = []\<rparr>)] (NewServer ''secret'') =
   \<lparr>Password = ''secret'',
    topics = [''news'' \<mapsto> \<lparr>ta_Name = ''news'', ta_clients = {1}\<rparr>],
    UserData = (\<lambda>c. None)(1 := Some \<lparr>topicAgents = [''news'' \<mapsto> ''news'']\<rparr>)\<rparr>"
  by (simp add: handle_def onAuthenticate_def onSubscribe_def invalid_def addClient_def
        NewServer_def getOrMakeTopic_def newTopicAgent_def ta_Add_def Let_def)

end
